theory Spec2Isabelle
  imports
    Complex_Main
    "HOL-Library.Char_ord"
    "HOL-Library.List_Lexorder"
    "HOL-Library.Product_Lexorder"
begin

section \<open>Float columns\<close>

text \<open>
  A pandas float column holds finite numbers, the two infinities and NaN, and NaN is
  also the column's null marker (\<open>isna\<close>, \<open>fillna\<close>, \<open>dropna\<close> test for it).
  Finite values are modelled as exact reals: rounding and the sign of zero are outside
  the model, everything else of the arithmetic (division by zero, \<open>inf - inf\<close>,
  \<open>0 * inf\<close>) is written out.
\<close>

datatype flt = Fin real | PInf | NInf | NaN

fun isna :: "flt \<Rightarrow> bool" where
  "isna NaN = True"
| "isna _ = False"

fun isfinite :: "flt \<Rightarrow> bool" where
  "isfinite (Fin a) = True"
| "isfinite _ = False"

fun fval :: "flt \<Rightarrow> real" where
  "fval (Fin a) = a"
| "fval _ = 0"

definition inf_of_sign :: "real \<Rightarrow> flt" where
  "inf_of_sign s = (if s = 0 then NaN else if 0 < s then PInf else NInf)"

fun sgn_flt :: "flt \<Rightarrow> real" where
  "sgn_flt (Fin a) = sgn a"
| "sgn_flt PInf = 1"
| "sgn_flt NInf = - 1"
| "sgn_flt NaN = 0"

fun fneg :: "flt \<Rightarrow> flt" where
  "fneg (Fin a) = Fin (- a)"
| "fneg PInf = NInf"
| "fneg NInf = PInf"
| "fneg NaN = NaN"

fun fadd :: "flt \<Rightarrow> flt \<Rightarrow> flt" where
  "fadd (Fin a) (Fin b) = Fin (a + b)"
| "fadd NaN y = NaN"
| "fadd x NaN = NaN"
| "fadd PInf NInf = NaN"
| "fadd NInf PInf = NaN"
| "fadd PInf y = PInf"
| "fadd x PInf = PInf"
| "fadd NInf y = NInf"
| "fadd x NInf = NInf"

definition fsub :: "flt \<Rightarrow> flt \<Rightarrow> flt" where
  "fsub x y = fadd x (fneg y)"

fun fmul :: "flt \<Rightarrow> flt \<Rightarrow> flt" where
  "fmul (Fin a) (Fin b) = Fin (a * b)"
| "fmul NaN y = NaN"
| "fmul x NaN = NaN"
| "fmul x y = inf_of_sign (sgn_flt x * sgn_flt y)"

fun fdiv :: "flt \<Rightarrow> flt \<Rightarrow> flt" where
  "fdiv (Fin a) (Fin b) = (if b = 0 then inf_of_sign (sgn a) else Fin (a / b))"
| "fdiv NaN y = NaN"
| "fdiv x NaN = NaN"
| "fdiv (Fin a) y = Fin 0"
| "fdiv x (Fin b) = (if 0 \<le> b then x else fneg x)"
| "fdiv x y = NaN"

fun fsqrt :: "flt \<Rightarrow> flt" where
  "fsqrt (Fin a) = (if a < 0 then NaN else Fin (sqrt a))"
| "fsqrt PInf = PInf"
| "fsqrt NInf = NaN"
| "fsqrt NaN = NaN"

section \<open>Price records\<close>

text \<open>
  The table that \<open>load_data\<close> returns, after the ticker has been stripped and
  lower-cased: one row per (ticker, date). A date is (year, month, day), ordered
  lexicographically. Only \<open>ticker\<close>, \<open>date\<close> and \<open>close\<close> are read by the
  computations below; \<open>close\<close> is a finite, non-null decimal.
\<close>

type_synonym date = "nat \<times> nat \<times> nat"

record row =
  ticker :: string
  date :: date
  close :: real

record erow = row +
  sector :: string
  daily_return :: flt
  cumulative_return :: flt
  month :: "nat \<times> nat"
  yearly_return :: flt

definition nifty_sector_map :: "(string \<times> string) list" where
  "nifty_sector_map =
   [(''adaniports'', ''Services''), (''adanienterprises'', ''Services''), (''adani_green'', ''Power''),
    (''adani_total_gas'', ''Oil & Gas''), (''adani_power'', ''Power''), (''asianpaints'', ''Consumer Goods''),
    (''axisbank'', ''Banking''), (''baidulifesciences'', ''Pharma''), (''bharti_airtel'', ''Services''),
    (''bajaj_auto'', ''Auto''), (''bajaj_finance'', ''Finance''), (''bajaj_finserv'', ''Finance''),
    (''bharatforge'', ''Auto''), (''bharat_pe'', ''Services''), (''bharat_heavy_electricals'', ''Industrial''),
    (''bharat_petroleum'', ''Oil & Gas''), (''bhp'', ''Mining''), (''bpcl'', ''Oil & Gas''), (''castrol_india'', ''Oil & Gas''),
    (''cipla'', ''Pharma''), (''coal_india'', ''Mining''), (''divis_labs'', ''Pharma''), (''dr_reddys'', ''Pharma''),
    (''eicher_motors'', ''Auto''), (''gail'', ''Oil & Gas''), (''grasim_industries'', ''Industrial''),
    (''hcl_technologies'', ''Technology''), (''hdfc_bank'', ''Banking''), (''hdfc'', ''Finance''),
    (''hero_motocorp'', ''Auto''), (''hindalco_industries'', ''Metals''), (''hindustan_unilever'', ''Consumer Goods''),
    (''icici_bank'', ''Banking''), (''indusind_bank'', ''Banking''), (''infosys'', ''Technology''),
    (''jsw_steel'', ''Metals''), (''kotak_mahindra_bank'', ''Banking''), (''larsen_toubro'', ''Industrial''),
    (''mahindra'', ''Auto''), (''maruti_suzuki'', ''Auto''), (''ntpc'', ''Power''), (''ongc'', ''Oil & Gas''),
    (''power_grid'', ''Power''), (''reliance'', ''Oil & Gas''), (''sbicard'', ''Finance''),
    (''state_bank_of_india'', ''Banking''), (''sun_pharma'', ''Pharma''),
    (''tata_consultancy_services'', ''Technology''), (''tata_motors'', ''Auto''), (''tata_steel'', ''Metals''),
    (''tech_mahindra'', ''Technology''), (''titans'', ''Consumer Goods''), (''ultratech_cement'', ''Cement''), (''wipro'', ''Technology'')]"

definition sector_of :: "string \<Rightarrow> string" where
  \<comment> \<open>\<open>df["ticker"].map(nifty_sector_map).fillna("Unknown")\<close>\<close>
  "sector_of t = (case map_of nifty_sector_map t of Some s \<Rightarrow> s | None \<Rightarrow> ''Unknown'')"

text \<open>
  \<open>df.sort_values("date")\<close> orders the rows by date. The library's default sort
  fixes no order among rows of equal date; the model keeps them in their order of
  loading. The records of one ticker come out in the same order under every such choice
  as long as the ticker has one record per date.
\<close>

definition sort_values_date :: "row list \<Rightarrow> row list" where
  "sort_values_date df = sort_key date df"

definition month_of :: "date \<Rightarrow> nat \<times> nat" where
  \<comment> \<open>\<open>dt.to_period("M")\<close>: the year and the month, printed as YYYY-MM\<close>
  "month_of d = (fst d, fst (snd d))"

section \<open>Series operations\<close>

definition shift :: "flt list \<Rightarrow> flt list" where
  "shift xs = (if xs = [] then [] else NaN # butlast xs)"

definition pct_change :: "flt list \<Rightarrow> flt list" where
  \<comment> \<open>\<open>data / data.shift(1) - 1\<close>, nothing filled (\<open>fill_method=None\<close>)\<close>
  "pct_change xs = map2 (\<lambda>x s. fsub (fdiv x s) (Fin 1)) xs (shift xs)"

definition fillna :: "flt \<Rightarrow> flt list \<Rightarrow> flt list" where
  "fillna v xs = map (\<lambda>x. if isna x then v else x) xs"

fun cumprod_from :: "flt \<Rightarrow> flt list \<Rightarrow> flt list" where
  "cumprod_from acc [] = []"
| "cumprod_from acc (x # xs) = fmul acc x # cumprod_from (fmul acc x) xs"

definition np_cumprod :: "flt list \<Rightarrow> flt list" where
  "np_cumprod xs = (case xs of [] \<Rightarrow> [] | x # ys \<Rightarrow> x # cumprod_from x ys)"

definition cumprod :: "flt list \<Rightarrow> flt list" where
  \<comment> \<open>\<open>Series.cumprod()\<close>, \<open>skipna=True\<close>: a null entry counts as 1 and stays null\<close>
  "cumprod xs =
     map2 (\<lambda>x r. if isna x then NaN else r) xs
       (np_cumprod (map (\<lambda>x. if isna x then Fin 1 else x) xs))"

fun first_valid :: "flt list \<Rightarrow> flt" where
  "first_valid [] = NaN"
| "first_valid (x # xs) = (if isna x then first_valid xs else x)"

definition last_valid :: "flt list \<Rightarrow> flt" where
  "last_valid xs = first_valid (rev xs)"

section \<open>Group-by\<close>

definition group_keys :: "('k::linorder) list \<Rightarrow> 'k list" where
  \<comment> \<open>the keys of a \<open>groupby\<close>, sorted\<close>
  "group_keys ks = sort (remdups ks)"

definition group_vals :: "'k \<Rightarrow> 'k list \<Rightarrow> 'v list \<Rightarrow> 'v list" where
  \<comment> \<open>the values of one group, in table order\<close>
  "group_vals g ks vs = map snd (filter (\<lambda>p. fst p = g) (zip ks vs))"

definition transform :: "('v list \<Rightarrow> 'w list) \<Rightarrow> 'k list \<Rightarrow> 'v list \<Rightarrow> 'w list" where
  \<comment> \<open>split by key, apply \<open>f\<close> to each group, put every result back at its row\<close>
  "transform f ks vs =
     map (\<lambda>i. f (group_vals (ks ! i) ks vs) ! length (filter (\<lambda>k. k = ks ! i) (take i ks)))
       [0..<length ks]"

definition agg :: "('v list \<Rightarrow> 'w) \<Rightarrow> ('k::linorder) list \<Rightarrow> 'v list \<Rightarrow> ('k \<times> 'w) list" where
  \<comment> \<open>one value per group, groups in key order\<close>
  "agg f ks vs = map (\<lambda>g. (g, f (group_vals g ks vs))) (group_keys ks)"

section \<open>Preprocessing\<close>

text \<open>
  A pandas Series indexed by ticker carries a name; a column label is a string or an
  integer (an unnamed Series becomes column \<open>0\<close> of a frame).
\<close>

datatype label = LStr string | LInt int

record series =
  sname :: "label option"
  index_name :: "label option"
  sdata :: "(string \<times> flt) list"

definition series_binop :: "(flt \<Rightarrow> flt \<Rightarrow> flt) \<Rightarrow> series \<Rightarrow> series \<Rightarrow> series" where
  \<comment> \<open>arithmetic of two Series aligned on the index of the left one; the result keeps
      the operands' name when they agree and has none otherwise\<close>
  "series_binop f a b =
     \<lparr>sname = (if sname a = sname b then sname a else None),
      index_name = index_name a,
      sdata = map (\<lambda>(k, v). (k, f v (case map_of (sdata b) k of Some w \<Rightarrow> w | None \<Rightarrow> NaN)))
                (sdata a)\<rparr>"

definition series_map :: "series \<Rightarrow> string \<Rightarrow> flt" where
  \<comment> \<open>\<open>column.map(series)\<close> at one value: the entry at that index, null when absent\<close>
  "series_map s k = (case map_of (sdata s) k of Some v \<Rightarrow> v | None \<Rightarrow> NaN)"

definition closes :: "'a row_scheme list \<Rightarrow> flt list" where
  "closes df = map (\<lambda>r. Fin (close r)) df"

definition latest_close :: "'a row_scheme list \<Rightarrow> series" where
  \<comment> \<open>\<open>df.groupby("ticker").last()["close"]\<close>\<close>
  "latest_close df =
     \<lparr>sname = Some (LStr ''close''), index_name = Some (LStr ''ticker''),
      sdata = agg last_valid (map ticker df) (closes df)\<rparr>"

definition first_close :: "'a row_scheme list \<Rightarrow> series" where
  \<comment> \<open>\<open>df.groupby("ticker").first()["close"]\<close>\<close>
  "first_close df =
     \<lparr>sname = Some (LStr ''close''), index_name = Some (LStr ''ticker''),
      sdata = agg first_valid (map ticker df) (closes df)\<rparr>"

definition df_yearly :: "'a row_scheme list \<Rightarrow> series" where
  "df_yearly df =
     series_binop fdiv (series_binop fsub (latest_close df) (first_close df)) (first_close df)"

definition daily_return_col :: "'a row_scheme list \<Rightarrow> flt list" where
  \<comment> \<open>\<open>df.groupby("ticker")["close"].pct_change(fill_method=None)\<close>\<close>
  "daily_return_col df = transform pct_change (map ticker df) (closes df)"

definition cumulative_return_col :: "'a row_scheme list \<Rightarrow> flt list" where
  \<comment> \<open>\<open>groupby("ticker")["daily_return"].transform(lambda x: (1 + x.fillna(0)).cumprod())\<close>\<close>
  "cumulative_return_col df =
     transform (\<lambda>x. cumprod (map (fadd (Fin 1)) (fillna (Fin 0) x)))
       (map ticker df) (daily_return_col df)"

definition preprocess :: "row list \<Rightarrow> erow list" where
  \<comment> \<open>lines 47 to 58: the table \<open>df\<close> every later section reads\<close>
  "preprocess raw =
     (let df = sort_values_date raw;
          yearly = df_yearly df
      in map (\<lambda>(r, dr, cr).
                \<lparr>ticker = ticker r, date = date r, close = close r,
                 sector = sector_of (ticker r),
                 daily_return = dr,
                 cumulative_return = cr,
                 month = month_of (date r),
                 yearly_return = series_map yearly (ticker r)\<rparr>)
           (zip df (zip (daily_return_col df) (cumulative_return_col df))))"

section \<open>Yearly returns export\<close>

record frame =
  columns :: "label list"
  frows :: "(string \<times> flt) list"

definition reset_index :: "series \<Rightarrow> frame" where
  \<comment> \<open>the index becomes a column; the values column is named after the Series,
      or \<open>0\<close> when the Series has no name\<close>
  "reset_index s =
     \<lparr>columns = [case index_name s of Some n \<Rightarrow> n | None \<Rightarrow> LStr ''index'',
                 case sname s of Some n \<Rightarrow> n | None \<Rightarrow> LInt 0],
      frows = sdata s\<rparr>"

definition rename_columns :: "(label \<times> label) list \<Rightarrow> frame \<Rightarrow> frame" where
  \<comment> \<open>\<open>rename(columns=m)\<close>: labels not in \<open>m\<close> are left as they are\<close>
  "rename_columns m f =
     f\<lparr>columns := map (\<lambda>c. case map_of m c of Some c' \<Rightarrow> c' | None \<Rightarrow> c) (columns f)\<rparr>"

definition to_csv :: "frame \<Rightarrow> label list \<times> (string \<times> flt) list" where
  \<comment> \<open>\<open>to_csv(index=False)\<close>: the header line, then one line per row; the printing
      of numbers is not modelled\<close>
  "to_csv f = (columns f, frows f)"

definition csv_yearly :: "erow list \<Rightarrow> label list \<times> (string \<times> flt) list" where
  "csv_yearly df =
     to_csv (rename_columns [(LInt 0, LStr ''yearly_return'')] (reset_index (df_yearly df)))"

section \<open>Rankings\<close>

definition fsum :: "flt list \<Rightarrow> flt" where
  "fsum xs = foldl fadd (Fin 0) xs"

definition mean :: "flt list \<Rightarrow> flt" where
  \<comment> \<open>nulls skipped; null when nothing is left\<close>
  "mean xs =
     (let vs = filter (\<lambda>x. \<not> isna x) xs
      in if vs = [] then NaN else fdiv (fsum vs) (Fin (real (length vs))))"

definition std :: "flt list \<Rightarrow> flt" where
  \<comment> \<open>sample standard deviation (\<open>ddof=1\<close>), nulls skipped\<close>
  "std xs =
     (let vs = filter (\<lambda>x. \<not> isna x) xs; n = length vs
      in if n < 2 then NaN
         else let m = fdiv (fsum vs) (Fin (real n));
                  ss = fsum (map (\<lambda>x. fmul (fsub x m) (fsub x m)) vs)
              in fsqrt (fdiv ss (Fin (real n - 1))))"

fun sort_rank :: "flt \<Rightarrow> int \<times> real" where
  "sort_rank (Fin a) = (0, a)"
| "sort_rank PInf = (1, 0)"
| "sort_rank NInf = (- 1, 0)"
| "sort_rank NaN = (2, 0)"

definition sort_values_desc :: "('a \<Rightarrow> flt) \<Rightarrow> 'a list \<Rightarrow> 'a list" where
  \<comment> \<open>\<open>sort_values(ascending=False)\<close>: the non-null rows are reversed, sorted
      ascending and reversed again; the null rows follow (\<open>na_position="last"\<close>)\<close>
  "sort_values_desc key xs =
     rev (sort_key (\<lambda>x. sort_rank (key x)) (rev (filter (\<lambda>x. \<not> isna (key x)) xs)))
       @ filter (\<lambda>x. isna (key x)) xs"


definition sector_perf :: "erow list \<Rightarrow> (string \<times> flt) list" where
  "sector_perf df =
     sort_values_desc snd (agg mean (map sector df) (map yearly_return df))"

section \<open>Monthly returns\<close>

record mrow =
  m_ticker :: string
  m_first :: flt
  m_last :: flt
  m_return :: flt

definition monthly_return :: "nat \<times> nat \<Rightarrow> erow list \<Rightarrow> mrow list" where
  "monthly_return selected_month df =
     (let monthly = filter (\<lambda>r. month r = selected_month) df;
          ks = map ticker monthly;
          t = map (\<lambda>g. let f = first_valid (group_vals g ks (closes monthly));
                            l = last_valid (group_vals g ks (closes monthly))
                        in \<lparr>m_ticker = g, m_first = f, m_last = l,
                            m_return = fdiv (fsub l f) f\<rparr>)
                (group_keys ks)
      in sort_values_desc m_return t)"

definition csv_month :: "nat \<times> nat \<Rightarrow> erow list \<Rightarrow> string list \<times> mrow list" where
  \<comment> \<open>\<open>monthly_return.reset_index().to_csv(index=False)\<close>\<close>
  "csv_month selected_month df =
     ([''ticker'', ''first'', ''last'', ''monthly_return''], monthly_return selected_month df)"

section \<open>Correlation\<close>

definition pivot :: "erow list \<Rightarrow> flt list list" where
  \<comment> \<open>\<open>pivot_table(index="date", columns="ticker", values="close", aggfunc="mean")\<close>:
      one line per date, one cell per ticker, both in sorted order\<close>
  "pivot df =
     map (\<lambda>d. map (\<lambda>t. mean (closes (filter (\<lambda>r. date r = d \<and> ticker r = t) df)))
                 (group_keys (map ticker df)))
       (group_keys (map date df))"

fun ffill_from :: "flt list \<Rightarrow> flt list list \<Rightarrow> flt list list" where
  "ffill_from prev [] = []"
| "ffill_from prev (r # rs) =
     (let r' = map2 (\<lambda>p x. if isna x then p else x) prev r in r' # ffill_from r' rs)"

definition ffill :: "flt list list \<Rightarrow> flt list list" where
  "ffill g = (case g of [] \<Rightarrow> [] | r # rs \<Rightarrow> r # ffill_from r rs)"

fun pct_change_from :: "flt list \<Rightarrow> flt list list \<Rightarrow> flt list list" where
  "pct_change_from prev [] = []"
| "pct_change_from prev (r # rs) =
     map2 (\<lambda>x s. fsub (fdiv x s) (Fin 1)) r prev # pct_change_from r rs"

definition pct_change_rows :: "flt list list \<Rightarrow> flt list list" where
  "pct_change_rows g = (case g of [] \<Rightarrow> [] | r # rs \<Rightarrow> map (\<lambda>x. NaN) r # pct_change_from r rs)"

definition dropna :: "flt list list \<Rightarrow> flt list list" where
  "dropna g = filter (\<lambda>r. \<forall>x \<in> set r. \<not> isna x) g"

definition pair_obs :: "nat \<Rightarrow> nat \<Rightarrow> flt list list \<Rightarrow> (real \<times> real) list" where
  \<comment> \<open>the lines where both columns hold a finite number\<close>
  "pair_obs i j g =
     map (\<lambda>r. (fval (r ! i), fval (r ! j))) (filter (\<lambda>r. isfinite (r ! i) \<and> isfinite (r ! j)) g)"

definition pearson :: "(real \<times> real) list \<Rightarrow> flt" where
  "pearson obs =
     (let n = real (length obs);
          mx = sum_list (map fst obs) / n;
          my = sum_list (map snd obs) / n;
          ssx = (\<Sum>p\<leftarrow>obs. (fst p - mx) * (fst p - mx));
          ssy = (\<Sum>p\<leftarrow>obs. (snd p - my) * (snd p - my));
          cov = (\<Sum>p\<leftarrow>obs. (fst p - mx) * (snd p - my));
          divisor = sqrt (ssx * ssy)
      in if length obs < 1 then NaN
         else if divisor \<noteq> 0 then Fin (cov / divisor) else NaN)"

definition returns :: "erow list \<Rightarrow> flt list list" where
  "returns df = dropna (pct_change_rows (ffill (pivot df)))"

definition corr :: "erow list \<Rightarrow> flt list list" where
  \<comment> \<open>\<open>returns.corr()\<close>: Pearson, pairwise over the lines complete for the pair\<close>
  "corr df =
     (let k = length (group_keys (map ticker df)); g = returns df
      in map (\<lambda>i. map (\<lambda>j. pearson (pair_obs i j g)) [0..<k]) [0..<k])"

section \<open>Notions used in the statements\<close>

definition ticker_series :: "string \<Rightarrow> 'a row_scheme list \<Rightarrow> 'a row_scheme list" where
  \<comment> \<open>the records of one ticker, in table order\<close>
  "ticker_series g df = filter (\<lambda>r. ticker r = g) df"

definition running_product :: "flt list \<Rightarrow> flt" where
  "running_product xs = foldl fmul (Fin 1) xs"

definition growth_factor :: "flt \<Rightarrow> flt" where
  \<comment> \<open>one plus the daily return, a null daily return counted as 0\<close>
  "growth_factor d = fadd (Fin 1) (if isna d then Fin 0 else d)"

text \<open>
  The scenario of the specification: ticker \<open>a\<close> closes at 10, 11 and 9.9 on three
  days, ticker \<open>b\<close> at 5 on the same days.
\<close>

definition scenario :: "row list" where
  "scenario =
     [\<lparr>ticker = ''a'', date = (2024, 1, 1), close = 10\<rparr>,
      \<lparr>ticker = ''b'', date = (2024, 1, 1), close = 5\<rparr>,
      \<lparr>ticker = ''a'', date = (2024, 1, 2), close = 11\<rparr>,
      \<lparr>ticker = ''b'', date = (2024, 1, 2), close = 5\<rparr>,
      \<lparr>ticker = ''a'', date = (2024, 1, 3), close = 99 / 10\<rparr>,
      \<lparr>ticker = ''b'', date = (2024, 1, 3), close = 5\<rparr>]"


text \<open>
  Two ways of averaging the yearly return of a sector: over its tickers, one value per
  ticker, and over its tickers with each value counted once per record of the ticker.
\<close>

definition sector_tickers :: "string \<Rightarrow> erow list \<Rightarrow> string list" where
  "sector_tickers s df = group_keys (map ticker (filter (\<lambda>r. sector r = s) df))"

definition record_count :: "string \<Rightarrow> 'a row_scheme list \<Rightarrow> nat" where
  "record_count g df = length (ticker_series g df)"

definition first_to_last :: "string \<Rightarrow> 'a row_scheme list \<Rightarrow> real" where
  "first_to_last g df =
     (close (last (ticker_series g df)) - close (hd (ticker_series g df)))
       / close (hd (ticker_series g df))"

definition unweighted_sector_mean :: "string \<Rightarrow> erow list \<Rightarrow> real" where
  "unweighted_sector_mean s df =
     (\<Sum>g\<leftarrow>sector_tickers s df. first_to_last g df) / real (length (sector_tickers s df))"

definition record_weighted_sector_mean :: "string \<Rightarrow> erow list \<Rightarrow> real" where
  "record_weighted_sector_mean s df =
     (\<Sum>g\<leftarrow>sector_tickers s df. real (record_count g df) * first_to_last g df)
       / (\<Sum>g\<leftarrow>sector_tickers s df. real (record_count g df))"

text \<open>
  Two tickers of the sector Pharma, one with two records and one with a single record,
  and a ticker that the sector table does not list.
\<close>

definition uneven :: "row list" where
  "uneven =
     [\<lparr>ticker = ''cipla'', date = (2024, 1, 1), close = 1\<rparr>,
      \<lparr>ticker = ''sun_pharma'', date = (2024, 1, 1), close = 1\<rparr>,
      \<lparr>ticker = ''zzz'', date = (2024, 1, 1), close = 4\<rparr>,
      \<lparr>ticker = ''cipla'', date = (2024, 1, 2), close = 2\<rparr>,
      \<lparr>ticker = ''zzz'', date = (2024, 1, 2), close = 5\<rparr>]"

text \<open>
  The order of a descending ranking: \<open>fle\<close> is the numeric order of the non-null
  values, and a value may stand before another one when the other one is null, or
  when neither is null and the first is at least as large.
\<close>

fun fle :: "flt \<Rightarrow> flt \<Rightarrow> bool" where
  "fle (Fin a) (Fin b) = (a \<le> b)"
| "fle NaN y = False"
| "fle x NaN = False"
| "fle NInf y = True"
| "fle x PInf = True"
| "fle x y = False"

definition desc_nulls_last :: "flt \<Rightarrow> flt \<Rightarrow> bool" where
  "desc_nulls_last x y = (isna y \<or> (\<not> isna x \<and> fle y x))"




definition month_series :: "nat \<times> nat \<Rightarrow> string \<Rightarrow> erow list \<Rightarrow> erow list" where
  \<comment> \<open>the records of one ticker in one month, in table order\<close>
  "month_series m g df = filter (\<lambda>r. month r = m) (ticker_series g df)"

text \<open>
  Ticker \<open>a\<close> trades in January and February 2024, ticker \<open>b\<close> in January only.
\<close>

definition two_months :: "row list" where
  "two_months =
     [\<lparr>ticker = ''a'', date = (2024, 1, 1), close = 10\<rparr>,
      \<lparr>ticker = ''b'', date = (2024, 1, 1), close = 5\<rparr>,
      \<lparr>ticker = ''a'', date = (2024, 1, 2), close = 11\<rparr>,
      \<lparr>ticker = ''b'', date = (2024, 1, 3), close = 6\<rparr>,
      \<lparr>ticker = ''a'', date = (2024, 2, 1), close = 12\<rparr>,
      \<lparr>ticker = ''a'', date = (2024, 2, 2), close = 9\<rparr>]"

text \<open>
  The finite values of one column of a grid, and the sum of the squared deviations of a
  list of numbers from their mean.
\<close>

definition finite_column :: "nat \<Rightarrow> flt list list \<Rightarrow> real list" where
  "finite_column i g = map (\<lambda>r. fval (r ! i)) (filter (\<lambda>r. isfinite (r ! i)) g)"

definition sum_sq_dev :: "real list \<Rightarrow> real" where
  "sum_sq_dev xs =
     (\<Sum>x\<leftarrow>xs. (x - sum_list xs / real (length xs)) * (x - sum_list xs / real (length xs)))"

definition ticker_columns :: "erow list \<Rightarrow> string list" where
  \<comment> \<open>the columns of the pivot and of the correlation matrix\<close>
  "ticker_columns df = group_keys (map ticker df)"

definition tickers_without_volatility :: "erow list \<Rightarrow> string list" where
  \<comment> \<open>the tickers whose standard deviation of daily returns is null, in ticker order\<close>
  "tickers_without_volatility df =
     filter (\<lambda>g. isna (std (map daily_return (ticker_series g df))))
       (group_keys (map ticker df))"

text \<open>A table with one ticker that has a single record, with a close of 0.\<close>

definition zero_lone :: "row list" where
  "zero_lone = [\<lparr>ticker = ''z'', date = (2024, 3, 1), close = 0\<rparr>]"

text \<open>Eleven tickers with a single record each.\<close>

definition eleven :: "row list" where
  "eleven =
     [\<lparr>ticker = ''a'', date = (2024, 1, 1), close = 1\<rparr>,
      \<lparr>ticker = ''b'', date = (2024, 1, 1), close = 2\<rparr>,
      \<lparr>ticker = ''c'', date = (2024, 1, 1), close = 3\<rparr>,
      \<lparr>ticker = ''d'', date = (2024, 1, 1), close = 4\<rparr>,
      \<lparr>ticker = ''e'', date = (2024, 1, 1), close = 5\<rparr>,
      \<lparr>ticker = ''f'', date = (2024, 1, 1), close = 6\<rparr>,
      \<lparr>ticker = ''g'', date = (2024, 1, 1), close = 7\<rparr>,
      \<lparr>ticker = ''h'', date = (2024, 1, 1), close = 8\<rparr>,
      \<lparr>ticker = ''i'', date = (2024, 1, 1), close = 9\<rparr>,
      \<lparr>ticker = ''j'', date = (2024, 1, 1), close = 10\<rparr>,
      \<lparr>ticker = ''k'', date = (2024, 1, 1), close = 11\<rparr>]"

section \<open>Lemmas on series and groups\<close>

lemma length_shift: "length (shift xs) = length xs"
  by (simp add: shift_def)

lemma length_pct_change: "length (pct_change xs) = length xs"
  by (simp add: pct_change_def length_shift)

lemma length_cumprod_from: "length (cumprod_from a xs) = length xs"
  by (induction xs arbitrary: a) auto

lemma length_np_cumprod: "length (np_cumprod xs) = length xs"
  by (simp add: np_cumprod_def length_cumprod_from split: list.splits)

lemma length_cumprod: "length (cumprod xs) = length xs"
  by (simp add: cumprod_def length_np_cumprod)

lemma length_group_vals:
  "length ks = length vs \<Longrightarrow> length (group_vals g ks vs) = length (filter (\<lambda>k. k = g) ks)"
proof (induction ks arbitrary: vs)
  case Nil
  then show ?case by (simp add: group_vals_def)
next
  case (Cons k ks)
  then obtain v vs' where "vs = v # vs'" by (cases vs) auto
  with Cons show ?case by (auto simp: group_vals_def)
qed

lemma group_vals_map:
  "group_vals g (map k xs) (map f xs) = map f (filter (\<lambda>r. k r = g) xs)"
  by (induction xs) (auto simp: group_vals_def)

lemma length_transform: "length (transform f ks vs) = length ks"
  by (simp add: transform_def)

lemma transform_suffix:
  assumes len: "\<And>xs. length (f xs) = length xs" and lv: "length vs = length (pre @ post)"
  shows "map snd (filter (\<lambda>p. fst p = g)
           (zip post (map (\<lambda>i. f (group_vals ((pre @ post) ! i) (pre @ post) vs)
                                ! length (filter (\<lambda>k. k = (pre @ post) ! i) (take i (pre @ post))))
                       [length pre..<length pre + length post])))
         = drop (length (filter (\<lambda>k. k = g) pre)) (f (group_vals g (pre @ post) vs))"
  using lv
proof (induction post arbitrary: pre)
  case Nil
  have "length (f (group_vals g pre vs)) = length (filter (\<lambda>k. k = g) pre)"
    using Nil by (simp add: len length_group_vals)
  then show ?case by simp
next
  case (Cons k post)
  have eq: "(pre @ [k]) @ post = pre @ k # post" by simp
  have lv': "length vs = length ((pre @ [k]) @ post)" using Cons.prems by simp
  note IH = Cons.IH[OF lv', unfolded eq]
  have upt: "[length pre..<length pre + length (k # post)]
             = length pre # [length (pre @ [k])..<length (pre @ [k]) + length post]"
    using upt_conv_Cons[of "length pre" "length pre + length (k # post)"] by simp
  have total: "length (f (group_vals g (pre @ k # post) vs))
               = length (filter (\<lambda>x. x = g) pre) + length (filter (\<lambda>x. x = g) (k # post))"
    using Cons.prems by (simp add: len length_group_vals)
  show ?case
  proof (cases "k = g")
    case True
    have lt: "length (filter (\<lambda>x. x = g) pre) < length (f (group_vals g (pre @ k # post) vs))"
      using total True by simp
    show ?thesis
      unfolding upt using IH True lt
      by (simp add: Cons_nth_drop_Suc)
  next
    case False
    show ?thesis
      unfolding upt using IH False by simp
  qed
qed

lemma group_vals_transform:
  assumes len: "\<And>xs. length (f xs) = length xs" and lv: "length vs = length ks"
  shows "group_vals g ks (transform f ks vs) = f (group_vals g ks vs)"
  using transform_suffix[of f vs "[]" ks g, OF len] lv
  by (simp add: group_vals_def transform_def)

section \<open>The preprocessed table\<close>

lemma length_closes: "length (closes df) = length df"
  by (simp add: closes_def)

lemma length_daily_return_col: "length (daily_return_col df) = length df"
  by (simp add: daily_return_col_def length_transform)

lemma length_cumulative_return_col: "length (cumulative_return_col df) = length df"
  by (simp add: cumulative_return_col_def length_transform)

lemma map_zip3_fst:
  "length xs = length ys \<Longrightarrow> length ys = length zs \<Longrightarrow>
   map (\<lambda>(r, d, c). f r) (zip xs (zip ys zs)) = map f xs"
proof -
  assume a: "length xs = length ys" "length ys = length zs"
  have "map (\<lambda>(r, d, c). f r) (zip xs (zip ys zs)) = map f (map fst (zip xs (zip ys zs)))"
    by (simp add: case_prod_unfold)
  also have "\<dots> = map f xs" using a by simp
  finally show ?thesis .
qed

lemma map_zip3_snd:
  "length xs = length ys \<Longrightarrow> length ys = length zs \<Longrightarrow>
   map (\<lambda>(r, d, c). f d) (zip xs (zip ys zs)) = map f ys"
proof -
  assume a: "length xs = length ys" "length ys = length zs"
  have "map (\<lambda>(r, d, c). f d) (zip xs (zip ys zs))
        = map f (map fst (map snd (zip xs (zip ys zs))))"
    by (simp add: case_prod_unfold)
  also have "\<dots> = map f ys" using a by simp
  finally show ?thesis .
qed

lemma map_zip3_thd:
  "length xs = length ys \<Longrightarrow> length ys = length zs \<Longrightarrow>
   map (\<lambda>(r, d, c). f c) (zip xs (zip ys zs)) = map f zs"
proof -
  assume a: "length xs = length ys" "length ys = length zs"
  have "map (\<lambda>(r, d, c). f c) (zip xs (zip ys zs))
        = map f (map snd (map snd (zip xs (zip ys zs))))"
    by (simp add: case_prod_unfold)
  also have "\<dots> = map f zs" using a by simp
  finally show ?thesis .
qed

lemma truncate_preprocess: "map row.truncate (preprocess raw) = sort_values_date raw"
proof -
  let ?df = "sort_values_date raw"
  have "map row.truncate (preprocess raw)
        = map (\<lambda>(r, d, c). row.truncate r) (zip ?df (zip (daily_return_col ?df) (cumulative_return_col ?df)))"
    by (simp add: preprocess_def Let_def case_prod_unfold row.truncate_def)
  also have "\<dots> = map row.truncate ?df"
    by (rule map_zip3_fst) (simp_all add: length_daily_return_col length_cumulative_return_col)
  also have "\<dots> = ?df"
    by (simp add: row.truncate_def map_idI)
  finally show ?thesis .
qed

lemma ticker_truncate: "ticker (row.truncate r) = ticker r"
  and date_truncate: "date (row.truncate r) = date r"
  and close_truncate: "close (row.truncate r) = close r"
  by (simp_all add: row.truncate_def)

lemma ticker_preprocess: "map ticker (preprocess raw) = map ticker (sort_values_date raw)"
  using arg_cong[OF truncate_preprocess, of "map ticker" raw] by (simp add: ticker_truncate o_def)

lemma closes_truncate: "closes (map row.truncate df) = closes df"
  by (simp add: closes_def close_truncate o_def)

lemma closes_preprocess: "closes (preprocess raw) = closes (sort_values_date raw)"
  using closes_truncate[of "preprocess raw"] by (simp add: truncate_preprocess)

lemma daily_return_preprocess:
  "map daily_return (preprocess raw) = daily_return_col (sort_values_date raw)"
proof -
  let ?df = "sort_values_date raw"
  have "map daily_return (preprocess raw)
        = map (\<lambda>(r, d, c). d) (zip ?df (zip (daily_return_col ?df) (cumulative_return_col ?df)))"
    by (simp add: preprocess_def Let_def case_prod_unfold)
  also have "\<dots> = map (\<lambda>d. d) (daily_return_col ?df)"
    by (rule map_zip3_snd) (simp_all add: length_daily_return_col length_cumulative_return_col)
  finally show ?thesis by simp
qed

lemma cumulative_return_preprocess:
  "map cumulative_return (preprocess raw) = cumulative_return_col (sort_values_date raw)"
proof -
  let ?df = "sort_values_date raw"
  have "map cumulative_return (preprocess raw)
        = map (\<lambda>(r, d, c). c) (zip ?df (zip (daily_return_col ?df) (cumulative_return_col ?df)))"
    by (simp add: preprocess_def Let_def case_prod_unfold)
  also have "\<dots> = map (\<lambda>c. c) (cumulative_return_col ?df)"
    by (rule map_zip3_thd) (simp_all add: length_daily_return_col length_cumulative_return_col)
  finally show ?thesis by simp
qed

lemma yearly_return_preprocess:
  "r \<in> set (preprocess raw) \<Longrightarrow>
   yearly_return r = series_map (df_yearly (sort_values_date raw)) (ticker r)"
  by (auto simp: preprocess_def Let_def)

lemma sector_preprocess: "r \<in> set (preprocess raw) \<Longrightarrow> sector r = sector_of (ticker r)"
  by (auto simp: preprocess_def Let_def)

lemma month_preprocess: "r \<in> set (preprocess raw) \<Longrightarrow> month r = month_of (date r)"
  by (auto simp: preprocess_def Let_def)

text \<open>The records of one ticker, in table order: the ticker's chronological series.\<close>

lemma series_chronological:
  "map row.truncate (filter (\<lambda>r. ticker r = g) (preprocess raw))
   = sort_key date (filter (\<lambda>r. ticker r = g) raw)"
proof -
  have "map row.truncate (filter (\<lambda>r. ticker r = g) (preprocess raw))
        = filter (\<lambda>r. ticker r = g) (map row.truncate (preprocess raw))"
    by (simp add: filter_map o_def ticker_truncate)
  then show ?thesis
    by (simp add: truncate_preprocess sort_values_date_def filter_sort)
qed

lemma series_daily_return:
  "map daily_return (filter (\<lambda>r. ticker r = g) (preprocess raw))
   = pct_change (closes (filter (\<lambda>r. ticker r = g) (preprocess raw)))"
proof -
  let ?df = "sort_values_date raw"
  have "map daily_return (filter (\<lambda>r. ticker r = g) (preprocess raw))
        = group_vals g (map ticker (preprocess raw)) (map daily_return (preprocess raw))"
    by (simp add: group_vals_map)
  also have "\<dots> = group_vals g (map ticker ?df) (transform pct_change (map ticker ?df) (closes ?df))"
    by (simp add: ticker_preprocess daily_return_preprocess daily_return_col_def)
  also have "\<dots> = pct_change (group_vals g (map ticker ?df) (closes ?df))"
    by (rule group_vals_transform) (simp_all add: length_pct_change length_closes)
  also have "group_vals g (map ticker ?df) (closes ?df)
             = group_vals g (map ticker (preprocess raw)) (map (\<lambda>r. Fin (close r)) (preprocess raw))"
    using closes_preprocess[of raw] by (simp add: ticker_preprocess closes_def)
  also have "\<dots> = closes (filter (\<lambda>r. ticker r = g) (preprocess raw))"
    by (simp add: group_vals_map closes_def)
  finally show ?thesis .
qed

lemma series_cumulative_return:
  "map cumulative_return (filter (\<lambda>r. ticker r = g) (preprocess raw))
   = cumprod (map (fadd (Fin 1))
       (fillna (Fin 0) (map daily_return (filter (\<lambda>r. ticker r = g) (preprocess raw)))))"
proof -
  let ?df = "sort_values_date raw"
  let ?f = "\<lambda>x. cumprod (map (fadd (Fin 1)) (fillna (Fin 0) x))"
  have "map cumulative_return (filter (\<lambda>r. ticker r = g) (preprocess raw))
        = group_vals g (map ticker (preprocess raw)) (map cumulative_return (preprocess raw))"
    by (simp add: group_vals_map)
  also have "\<dots> = group_vals g (map ticker ?df) (transform ?f (map ticker ?df) (daily_return_col ?df))"
    by (simp add: ticker_preprocess cumulative_return_preprocess cumulative_return_col_def)
  also have "\<dots> = ?f (group_vals g (map ticker ?df) (daily_return_col ?df))"
    by (rule group_vals_transform) (simp_all add: length_cumprod fillna_def length_daily_return_col)
  also have "group_vals g (map ticker ?df) (daily_return_col ?df)
             = group_vals g (map ticker (preprocess raw)) (map daily_return (preprocess raw))"
    by (simp add: ticker_preprocess daily_return_preprocess)
  also have "\<dots> = map daily_return (filter (\<lambda>r. ticker r = g) (preprocess raw))"
    by (simp add: group_vals_map)
  finally show ?thesis .
qed

section \<open>Daily and cumulative return\<close>

lemma fsub_NaN [simp]: "fsub NaN y = NaN"
  by (simp add: fsub_def)

lemma fdiv_NaN_right [simp]: "fdiv x NaN = NaN"
  by (cases x) simp_all

lemma pct_change_first: "xs \<noteq> [] \<Longrightarrow> pct_change xs ! 0 = NaN"
  by (cases xs) (simp_all add: pct_change_def shift_def)

lemma pct_change_nth:
  assumes "0 < t" "t < length xs"
  shows "pct_change xs ! t = fsub (fdiv (xs ! t) (xs ! (t - 1))) (Fin 1)"
proof -
  have "shift xs ! t = butlast xs ! (t - 1)"
    using assms by (auto simp: shift_def nth_Cons')
  also have "\<dots> = xs ! (t - 1)"
    using assms by (simp add: nth_butlast)
  finally have "shift xs ! t = xs ! (t - 1)" .
  then show ?thesis
    using assms by (simp add: pct_change_def length_shift)
qed

lemma pct_step:
  "p \<noteq> 0 \<Longrightarrow> fsub (fdiv (Fin c) (Fin p)) (Fin 1) = Fin ((c - p) / p)"
  by (simp add: fsub_def diff_divide_distrib)

lemma series_closes_nth:
  "t < length (ticker_series g df) \<Longrightarrow>
   closes (ticker_series g df) ! t = Fin (close (ticker_series g df ! t))"
  by (simp add: closes_def)

lemma ticker_series_daily_return:
  "map daily_return (ticker_series g (preprocess raw))
   = pct_change (closes (ticker_series g (preprocess raw)))"
  unfolding ticker_series_def by (rule series_daily_return)

lemma ticker_series_cumulative_return:
  "map cumulative_return (ticker_series g (preprocess raw))
   = cumprod (map growth_factor (map daily_return (ticker_series g (preprocess raw))))"
  unfolding ticker_series_def growth_factor_def
  using series_cumulative_return[of g raw] by (simp add: fillna_def o_def)

lemma scenario_preprocess:
  "preprocess scenario =
     [\<lparr>ticker = ''a'', date = (2024, 1, 1), close = 10, sector = ''Unknown'',
        daily_return = NaN, cumulative_return = Fin 1, month = (2024, 1),
        yearly_return = Fin (- (1 / 100))\<rparr>,
      \<lparr>ticker = ''b'', date = (2024, 1, 1), close = 5, sector = ''Unknown'',
        daily_return = NaN, cumulative_return = Fin 1, month = (2024, 1),
        yearly_return = Fin 0\<rparr>,
      \<lparr>ticker = ''a'', date = (2024, 1, 2), close = 11, sector = ''Unknown'',
        daily_return = Fin (1 / 10), cumulative_return = Fin (11 / 10),
        month = (2024, 1), yearly_return = Fin (- (1 / 100))\<rparr>,
      \<lparr>ticker = ''b'', date = (2024, 1, 2), close = 5, sector = ''Unknown'',
        daily_return = Fin 0, cumulative_return = Fin 1, month = (2024, 1),
        yearly_return = Fin 0\<rparr>,
      \<lparr>ticker = ''a'', date = (2024, 1, 3), close = 99 / 10, sector = ''Unknown'',
        daily_return = Fin (- (1 / 10)), cumulative_return = Fin (99 / 100),
        month = (2024, 1), yearly_return = Fin (- (1 / 100))\<rparr>,
      \<lparr>ticker = ''b'', date = (2024, 1, 3), close = 5, sector = ''Unknown'',
        daily_return = Fin 0, cumulative_return = Fin 1, month = (2024, 1),
        yearly_return = Fin 0\<rparr>]"
  by code_simp

text \<open>
  Claim C5. The records of a ticker \<open>g\<close> in the preprocessed table are the ticker's
  records in ascending date order. The daily return of the first of them is null, and at
  every later record \<open>t\<close> whose predecessor has a nonzero close it is
  \<open>(close[t] - close[t-1]) / close[t-1]\<close>. The dates of the records do not enter the
  formula: a gap between two dates is one step like any other.
\<close>

theorem daily_return_one_step:
  "map row.truncate (ticker_series g (preprocess raw)) = sort_key date (ticker_series g raw)
   \<and> (ticker_series g (preprocess raw) \<noteq> [] \<longrightarrow>
        daily_return (ticker_series g (preprocess raw) ! 0) = NaN)
   \<and> (\<forall>t. 0 < t \<and> t < length (ticker_series g (preprocess raw))
            \<and> close (ticker_series g (preprocess raw) ! (t - 1)) \<noteq> 0 \<longrightarrow>
        daily_return (ticker_series g (preprocess raw) ! t)
        = Fin ((close (ticker_series g (preprocess raw) ! t)
                 - close (ticker_series g (preprocess raw) ! (t - 1)))
               / close (ticker_series g (preprocess raw) ! (t - 1))))"
proof -
  let ?s = "ticker_series g (preprocess raw)"
  have dr: "\<And>t. t < length ?s \<Longrightarrow> daily_return (?s ! t) = pct_change (closes ?s) ! t"
    using ticker_series_daily_return[of g raw] by (metis length_map nth_map)
  have chron: "map row.truncate ?s = sort_key date (ticker_series g raw)"
    unfolding ticker_series_def by (rule series_chronological)
  have first: "?s \<noteq> [] \<longrightarrow> daily_return (?s ! 0) = NaN"
  proof
    assume ne: "?s \<noteq> []"
    then have "closes ?s \<noteq> []" by (simp add: closes_def)
    then show "daily_return (?s ! 0) = NaN"
      using dr[of 0] ne by (simp add: pct_change_first)
  qed
  have step: "\<forall>t. 0 < t \<and> t < length ?s \<and> close (?s ! (t - 1)) \<noteq> 0 \<longrightarrow>
        daily_return (?s ! t) = Fin ((close (?s ! t) - close (?s ! (t - 1))) / close (?s ! (t - 1)))"
  proof (intro allI impI)
    fix t
    assume "0 < t \<and> t < length ?s \<and> close (?s ! (t - 1)) \<noteq> 0"
    then have a: "0 < t" "t < length ?s" "close (?s ! (t - 1)) \<noteq> 0" by blast+
    then have "daily_return (?s ! t) = pct_change (closes ?s) ! t" using dr by simp
    also have "\<dots> = fsub (fdiv (closes ?s ! t) (closes ?s ! (t - 1))) (Fin 1)"
      using a by (simp add: pct_change_nth length_closes)
    also have "\<dots> = fsub (fdiv (Fin (close (?s ! t))) (Fin (close (?s ! (t - 1))))) (Fin 1)"
    proof -
      have "t - 1 < length ?s" using a by arith
      then have "closes ?s ! (t - 1) = Fin (close (?s ! (t - 1)))"
        by (rule series_closes_nth)
      moreover have "closes ?s ! t = Fin (close (?s ! t))"
        using a by (simp add: series_closes_nth)
      ultimately show ?thesis by simp
    qed
    also have "\<dots> = Fin ((close (?s ! t) - close (?s ! (t - 1))) / close (?s ! (t - 1)))"
      using a(3) by (rule pct_step)
    finally show "daily_return (?s ! t)
                  = Fin ((close (?s ! t) - close (?s ! (t - 1))) / close (?s ! (t - 1)))" .
  qed
  from chron first step show ?thesis by blast
qed

theorem daily_return_one_step_witness:
  "ticker_series ''a'' (preprocess scenario) \<noteq> []
   \<and> daily_return (ticker_series ''a'' (preprocess scenario) ! 0) = NaN
   \<and> (0::nat) < 2 \<and> 2 < length (ticker_series ''a'' (preprocess scenario))
   \<and> close (ticker_series ''a'' (preprocess scenario) ! (2 - 1)) \<noteq> 0
   \<and> daily_return (ticker_series ''a'' (preprocess scenario) ! 2) = Fin ((99 / 10 - 11) / 11)"
  using daily_return_one_step[of "''a''" scenario]
  by (simp add: scenario_preprocess ticker_series_def)

lemma fmul_one_left: "fmul (Fin 1) x = x"
  by (cases x) (simp_all add: inf_of_sign_def)

lemma cumprod_from_nth:
  "k < length xs \<Longrightarrow> cumprod_from a xs ! k = foldl fmul a (take (Suc k) xs)"
proof (induction xs arbitrary: a k)
  case Nil
  then show ?case by simp
next
  case (Cons x xs)
  then show ?case by (cases k) simp_all
qed

lemma np_cumprod_nth:
  "k < length xs \<Longrightarrow> np_cumprod xs ! k = running_product (take (Suc k) xs)"
proof (cases xs)
  case Nil
  assume "k < length xs"
  with Nil show ?thesis by simp
next
  case (Cons x ys)
  assume k: "k < length xs"
  show ?thesis
  proof (cases k)
    case 0
    with Cons show ?thesis
      by (simp add: np_cumprod_def running_product_def fmul_one_left)
  next
    case (Suc j)
    with Cons k show ?thesis
      by (simp add: np_cumprod_def running_product_def fmul_one_left cumprod_from_nth)
  qed
qed

lemma cumprod_no_null:
  assumes "\<forall>x \<in> set xs. \<not> isna x"
  shows "cumprod xs = np_cumprod xs"
proof -
  have m: "map (\<lambda>x. if isna x then Fin 1 else x) xs = xs"
    using assms by (simp add: map_idI)
  have "map2 (\<lambda>x r. if isna x then NaN else r) xs (np_cumprod xs)
        = map2 (\<lambda>x r. r) xs (np_cumprod xs)"
    using assms by (auto intro!: map_cong dest: set_zip_leftD)
  also have "\<dots> = map snd (zip xs (np_cumprod xs))"
    by (simp add: case_prod_unfold)
  also have "\<dots> = np_cumprod xs"
    by (simp add: length_np_cumprod)
  finally show ?thesis
    by (simp add: cumprod_def m)
qed

lemma growth_factor_not_null: "\<not> isna (growth_factor d)"
  by (cases d) (simp_all add: growth_factor_def)

lemma growth_factor_null: "growth_factor NaN = Fin 1"
  by (simp add: growth_factor_def)

lemma series_cumulative_return_nth:
  assumes "k < length (ticker_series g (preprocess raw))"
  shows "cumulative_return (ticker_series g (preprocess raw) ! k)
         = running_product
             (map (\<lambda>r. growth_factor (daily_return r))
                (take (Suc k) (ticker_series g (preprocess raw))))"
proof -
  let ?s = "ticker_series g (preprocess raw)"
  let ?gs = "map growth_factor (map daily_return ?s)"
  have nn: "\<forall>x \<in> set ?gs. \<not> isna x"
    by (auto simp: growth_factor_not_null)
  have "cumulative_return (?s ! k) = map cumulative_return ?s ! k"
    using assms by simp
  also have "\<dots> = cumprod ?gs ! k"
    by (simp only: ticker_series_cumulative_return)
  also have "\<dots> = np_cumprod ?gs ! k"
    using cumprod_no_null[OF nn] by simp
  also have "\<dots> = running_product (take (Suc k) ?gs)"
    using assms by (simp add: np_cumprod_nth)
  also have "take (Suc k) ?gs = map (\<lambda>r. growth_factor (daily_return r)) (take (Suc k) ?s)"
    by (simp add: take_map o_def)
  finally show ?thesis .
qed

text \<open>
  Claim C1, as the code has it. At every record of a ticker the cumulative return is the
  running product of one plus the daily return over the ticker's chronological series up
  to that record, a null daily return counted as 0. Nothing is subtracted from the
  product: for closes 10, 11 and 9.9 the last value is \<open>1.10 * 0.90 = 0.99\<close>.
\<close>

theorem cumulative_return_running_product:
  "\<forall>k < length (ticker_series g (preprocess raw)).
     cumulative_return (ticker_series g (preprocess raw) ! k)
     = running_product
         (map (\<lambda>r. growth_factor (daily_return r))
            (take (Suc k) (ticker_series g (preprocess raw))))"
  by (simp add: series_cumulative_return_nth)

theorem cumulative_return_running_product_witness:
  "2 < length (ticker_series ''a'' (preprocess scenario))
   \<and> map daily_return (ticker_series ''a'' (preprocess scenario))
       = [NaN, Fin (1 / 10), Fin (- (1 / 10))]
   \<and> cumulative_return (ticker_series ''a'' (preprocess scenario) ! 2)
       = running_product (map growth_factor [NaN, Fin (1 / 10), Fin (- (1 / 10))])
   \<and> running_product (map growth_factor [NaN, Fin (1 / 10), Fin (- (1 / 10))]) = Fin (99 / 100)"
  using cumulative_return_running_product[of "''a''" scenario]
  by (simp add: scenario_preprocess ticker_series_def running_product_def growth_factor_def)

text \<open>
  The claim as written subtracts 1 from the product and expects \<open>1.10 * 0.90 - 1\<close> at
  the last record of the scenario's ticker \<open>a\<close>; the table holds 0.99 there.
\<close>

theorem cumulative_return_minus_one_counterexample:
  "cumulative_return (last (ticker_series ''a'' (preprocess scenario))) = Fin (99 / 100)
   \<and> cumulative_return (last (ticker_series ''a'' (preprocess scenario)))
       \<noteq> Fin (11 / 10 * (9 / 10) - 1)"
  by (simp add: scenario_preprocess ticker_series_def)

text \<open>
  Claim C9. For every ticker that has a record, the cumulative return of the ticker's
  chronologically first record is exactly 1, whatever the prices are.
\<close>

theorem first_cumulative_return_is_one:
  "ticker_series g (preprocess raw) \<noteq> [] \<longrightarrow>
   cumulative_return (ticker_series g (preprocess raw) ! 0) = Fin 1"
proof
  let ?s = "ticker_series g (preprocess raw)"
  assume ne: "?s \<noteq> []"
  then have len: "0 < length ?s" by simp
  have "closes ?s \<noteq> []" using ne by (simp add: closes_def)
  then have "pct_change (closes ?s) ! 0 = NaN" by (rule pct_change_first)
  then have "map daily_return ?s ! 0 = NaN"
    by (simp only: ticker_series_daily_return)
  then have d0: "daily_return (?s ! 0) = NaN" using len by simp
  have t1: "take (Suc 0) ?s = [?s ! 0]"
    using ne by (cases ?s) simp_all
  have "cumulative_return (?s ! 0)
        = running_product (map (\<lambda>r. growth_factor (daily_return r)) (take (Suc 0) ?s))"
    using len by (rule series_cumulative_return_nth)
  also have "\<dots> = Fin 1"
    by (simp add: t1 d0 growth_factor_null running_product_def)
  finally show "cumulative_return (?s ! 0) = Fin 1" .
qed

theorem first_cumulative_return_is_one_witness:
  "ticker_series ''b'' (preprocess scenario) \<noteq> []
   \<and> cumulative_return (ticker_series ''b'' (preprocess scenario) ! 0) = Fin 1"
  using first_cumulative_return_is_one[of "''b''" scenario]
  by (simp add: scenario_preprocess ticker_series_def)

section \<open>Yearly return\<close>

lemma set_group_keys: "set (group_keys ks) = set ks"
  by (simp add: group_keys_def)

lemma distinct_group_keys: "distinct (group_keys ks)"
  by (simp add: group_keys_def)

lemma map_of_keyed:
  "map_of (map (\<lambda>k. (k, h k)) xs) g = (if g \<in> set xs then Some (h g) else None)"
  by (induction xs) auto

lemma map_of_agg:
  "map_of (agg f ks vs) g = (if g \<in> set ks then Some (f (group_vals g ks vs)) else None)"
  by (simp add: agg_def map_of_keyed set_group_keys)

lemma map_of_map_value:
  "map_of (map (\<lambda>(k, v). (k, h k v)) xs) g = map_option (h g) (map_of xs g)"
  by (induction xs) auto

lemma series_map_df_yearly:
  assumes "g \<in> set (map ticker df)"
  shows "series_map (df_yearly df) g
         = fdiv (fsub (last_valid (group_vals g (map ticker df) (closes df)))
                      (first_valid (group_vals g (map ticker df) (closes df))))
                (first_valid (group_vals g (map ticker df) (closes df)))"
proof -
  let ?ks = "map ticker df"
  let ?F = "first_valid (group_vals g ?ks (closes df))"
  let ?L = "last_valid (group_vals g ?ks (closes df))"
  let ?fst = "agg first_valid ?ks (closes df)"
  let ?lst = "agg last_valid ?ks (closes df)"
  let ?look = "\<lambda>k. case map_of ?fst k of Some w \<Rightarrow> w | None \<Rightarrow> NaN"
  have lf: "?look g = ?F" using assms by (simp add: map_of_agg)
  have d: "sdata (df_yearly df)
           = map (\<lambda>(k, v). (k, fdiv v (?look k))) (map (\<lambda>(k, v). (k, fsub v (?look k))) ?lst)"
    by (simp add: df_yearly_def series_binop_def latest_close_def first_close_def)
  have "map_of (sdata (df_yearly df)) g
        = map_option (\<lambda>v. fdiv v (?look g))
            (map_of (map (\<lambda>(k, v). (k, fsub v (?look k))) ?lst) g)"
    unfolding d by (rule map_of_map_value)
  also have "\<dots> = map_option (\<lambda>v. fdiv v (?look g))
                     (map_option (\<lambda>v. fsub v (?look g)) (map_of ?lst g))"
    by (simp only: map_of_map_value)
  also have "\<dots> = Some (fdiv (fsub ?L ?F) ?F)"
    using assms by (simp add: map_of_agg lf)
  finally show ?thesis by (simp add: series_map_def)
qed

lemma first_valid_closes: "df \<noteq> [] \<Longrightarrow> first_valid (closes df) = Fin (close (hd df))"
  by (cases df) (simp_all add: closes_def)

lemma last_valid_closes: "df \<noteq> [] \<Longrightarrow> last_valid (closes df) = Fin (close (last df))"
proof -
  assume ne: "df \<noteq> []"
  have "rev (closes df) = closes (rev df)" by (simp add: closes_def rev_map)
  moreover have "rev df \<noteq> []" using ne by simp
  ultimately have "last_valid (closes df) = Fin (close (hd (rev df)))"
    by (simp add: last_valid_def first_valid_closes)
  then show ?thesis using ne by (simp add: hd_rev)
qed

lemma group_closes_preprocess:
  "group_vals g (map ticker (sort_values_date raw)) (closes (sort_values_date raw))
   = closes (ticker_series g (preprocess raw))"
proof -
  have "closes (ticker_series g (preprocess raw))
        = group_vals g (map ticker (preprocess raw)) (map (\<lambda>r. Fin (close r)) (preprocess raw))"
    by (simp add: group_vals_map closes_def ticker_series_def)
  also have "\<dots> = group_vals g (map ticker (preprocess raw)) (closes (preprocess raw))"
    by (simp add: closes_def)
  finally show ?thesis
    by (simp add: ticker_preprocess closes_preprocess)
qed

lemma series_yearly_return:
  assumes "r \<in> set (ticker_series g (preprocess raw))"
  shows "yearly_return r
         = fdiv (fsub (Fin (close (last (ticker_series g (preprocess raw)))))
                      (Fin (close (hd (ticker_series g (preprocess raw))))))
                (Fin (close (hd (ticker_series g (preprocess raw)))))"
proof -
  let ?s = "ticker_series g (preprocess raw)"
  let ?df = "sort_values_date raw"
  have r: "r \<in> set (preprocess raw)" "ticker r = g"
    using assms by (simp_all add: ticker_series_def)
  have ne: "?s \<noteq> []" using assms by auto
  have "g \<in> set (map ticker (preprocess raw))" using r by force
  then have g: "g \<in> set (map ticker ?df)" by (simp only: ticker_preprocess)
  have "yearly_return r = series_map (df_yearly ?df) g"
    using r by (simp add: yearly_return_preprocess)
  also have "\<dots> = fdiv (fsub (last_valid (closes ?s)) (first_valid (closes ?s)))
                        (first_valid (closes ?s))"
    using series_map_df_yearly[OF g] by (simp only: group_closes_preprocess)
  finally have y: "yearly_return r = fdiv (fsub (last_valid (closes ?s)) (first_valid (closes ?s)))
                        (first_valid (closes ?s))" .
  have f: "first_valid (closes ?s) = Fin (close (hd ?s))"
    using ne by (rule first_valid_closes)
  have l: "last_valid (closes ?s) = Fin (close (last ?s))"
    using ne by (rule last_valid_closes)
  show ?thesis using y by (simp only: f l)
qed

lemma yearly_step:
  "f \<noteq> 0 \<Longrightarrow> fdiv (fsub (Fin l) (Fin f)) (Fin f) = Fin ((l - f) / f)"
  by (simp add: fsub_def)



lemma zero_lone_preprocess:
  "preprocess zero_lone =
     [\<lparr>ticker = ''z'', date = (2024, 3, 1), close = 0, sector = ''Unknown'',
        daily_return = NaN, cumulative_return = Fin 1, month = (2024, 3),
        yearly_return = NaN\<rparr>]"
  by code_simp


text \<open>
  The claim as written gives a ticker with exactly one observation the yearly return 0,
  whatever its close. The only record of ticker \<open>z\<close> closes at 0, and its yearly
  return is null.
\<close>

theorem yearly_return_single_zero_counterexample:
  "length (ticker_series ''z'' (preprocess zero_lone)) = 1
   \<and> map close (ticker_series ''z'' (preprocess zero_lone)) = [0]
   \<and> map yearly_return (ticker_series ''z'' (preprocess zero_lone)) = [NaN]
   \<and> yearly_return (hd (ticker_series ''z'' (preprocess zero_lone))) \<noteq> Fin 0"
  by (simp add: zero_lone_preprocess ticker_series_def)

section \<open>Yearly returns export\<close>

lemma sname_df_yearly: "sname (df_yearly df) = Some (LStr ''close'')"
  by (simp add: df_yearly_def series_binop_def latest_close_def first_close_def)

lemma index_name_df_yearly: "index_name (df_yearly df) = Some (LStr ''ticker'')"
  by (simp add: df_yearly_def series_binop_def latest_close_def first_close_def)

lemma keys_df_yearly: "map fst (sdata (df_yearly df)) = group_keys (map ticker df)"
  by (simp add: df_yearly_def series_binop_def latest_close_def first_close_def agg_def
      o_def case_prod_unfold)

text \<open>
  Claim C3, what the code does. \<open>df_yearly\<close> is computed from two Series that are both
  named \<open>close\<close>, so it is named \<open>close\<close> itself; \<open>reset_index\<close> names the values
  column after it, and the renaming of column \<open>0\<close> finds no such column. For every
  table the header of the exported file is \<open>ticker, close\<close>, not
  \<open>ticker, yearly_return\<close>; the lines are the entries of \<open>df_yearly\<close>, one per
  ticker.
\<close>

theorem csv_yearly_header:
  "fst (csv_yearly df) = [LStr ''ticker'', LStr ''close'']
   \<and> fst (csv_yearly df) \<noteq> [LStr ''ticker'', LStr ''yearly_return'']
   \<and> snd (csv_yearly df) = sdata (df_yearly df)
   \<and> map fst (snd (csv_yearly df)) = group_keys (map ticker df)"
  by (simp add: csv_yearly_def to_csv_def rename_columns_def reset_index_def
      sname_df_yearly index_name_df_yearly keys_df_yearly)

lemma csv_yearly_scenario:
  "csv_yearly (preprocess scenario)
   = ([LStr ''ticker'', LStr ''close''], [(''a'', Fin (- (1 / 100))), (''b'', Fin 0)])"
  by code_simp

section \<open>Sorting by value\<close>

lemma set_sort_values_desc: "set (sort_values_desc key xs) = set xs"
  by (auto simp: sort_values_desc_def)

lemma distinct_sort_values_desc: "distinct xs \<Longrightarrow> distinct (sort_values_desc key xs)"
  by (auto simp: sort_values_desc_def)

lemma length_sort_values_desc: "length (sort_values_desc key xs) = length xs"
proof -
  have "length (filter (\<lambda>x. \<not> isna (key x)) xs) + length (filter (\<lambda>x. isna (key x)) xs)
        = length xs"
    using sum_length_filter_compl[of "\<lambda>x. \<not> isna (key x)" xs] by simp
  then show ?thesis by (simp add: sort_values_desc_def)
qed

lemma distinct_fst_sort_values_desc:
  "distinct (map fst xs) \<Longrightarrow> distinct (map fst (sort_values_desc key xs))"
  by (simp add: distinct_map distinct_sort_values_desc set_sort_values_desc)

lemma map_of_sort_values_desc:
  assumes "distinct (map fst xs)"
  shows "map_of (sort_values_desc key xs) = map_of xs"
proof
  fix k
  show "map_of (sort_values_desc key xs) k = map_of xs k"
  proof (cases "map_of xs k")
    case None
    then have "k \<notin> fst ` set xs" by (simp add: map_of_eq_None_iff)
    then have "k \<notin> fst ` set (sort_values_desc key xs)" by (simp add: set_sort_values_desc)
    then have "map_of (sort_values_desc key xs) k = None" by (simp add: map_of_eq_None_iff)
    with None show ?thesis by simp
  next
    case (Some v)
    then have "(k, v) \<in> set xs" by (rule map_of_SomeD)
    then have "(k, v) \<in> set (sort_values_desc key xs)" by (simp add: set_sort_values_desc)
    then have "map_of (sort_values_desc key xs) k = Some v"
      using distinct_fst_sort_values_desc[OF assms] by (simp add: map_of_eq_Some_iff)
    with Some show ?thesis by simp
  qed
qed

lemma keys_agg: "map fst (agg f ks vs) = group_keys ks"
  by (simp add: agg_def o_def)

section \<open>Sector performance\<close>

lemma foldl_fadd_Fin: "foldl fadd (Fin a) (map Fin xs) = Fin (a + sum_list xs)"
  by (induction xs arbitrary: a) (simp_all add: add.assoc)

lemma fsum_Fin: "fsum (map Fin xs) = Fin (sum_list xs)"
  by (simp add: fsum_def foldl_fadd_Fin)

lemma mean_Fin:
  "xs \<noteq> [] \<Longrightarrow> mean (map Fin xs) = Fin (sum_list xs / real (length xs))"
  by (simp add: mean_def Let_def fsum_Fin filter_map o_def)

lemma sum_list_pick:
  "distinct gs \<Longrightarrow> x \<in> set gs \<Longrightarrow> (\<Sum>g\<leftarrow>gs. if x = g then h g else 0) = (h x :: real)"
proof (induction gs)
  case Nil
  then show ?case by simp
next
  case (Cons a gs)
  show ?case
  proof (cases "x = a")
    case True
    then have "x \<notin> set gs" using Cons.prems by simp
    then have "(\<Sum>g\<leftarrow>gs. if x = g then h g else 0) = 0"
      by (induction gs) auto
    with True show ?thesis by simp
  next
    case False
    with Cons show ?thesis by simp
  qed
qed

lemma sum_list_by_key:
  assumes "distinct gs" and "k ` set rs \<subseteq> set gs"
  shows "(\<Sum>r\<leftarrow>rs. h (k r)) = (\<Sum>g\<leftarrow>gs. real (length (filter (\<lambda>r. k r = g) rs)) * (h g :: real))"
  using assms(2)
proof (induction rs)
  case Nil
  then show ?case by simp
next
  case (Cons r rs)
  then have kr: "k r \<in> set gs" and sub: "k ` set rs \<subseteq> set gs" by auto
  have "(\<Sum>g\<leftarrow>gs. real (length (filter (\<lambda>r. k r = g) (r # rs))) * h g)
        = (\<Sum>g\<leftarrow>gs. (if k r = g then h g else 0) + real (length (filter (\<lambda>r. k r = g) rs)) * h g)"
    by (rule arg_cong[where f = sum_list], rule map_cong) (auto simp: algebra_simps)
  also have "\<dots> = (\<Sum>g\<leftarrow>gs. if k r = g then h g else 0)
                   + (\<Sum>g\<leftarrow>gs. real (length (filter (\<lambda>r. k r = g) rs)) * h g)"
    by (simp add: sum_list_addf)
  also have "\<dots> = h (k r) + (\<Sum>r\<leftarrow>rs. h (k r))"
    using sum_list_pick[OF assms(1) kr] Cons.IH[OF sub] by simp
  finally show ?case by simp
qed

lemma set_ticker_preprocess: "ticker ` set (preprocess raw) = ticker ` set raw"
proof -
  have "set (map ticker (preprocess raw)) = set (map ticker (sort_values_date raw))"
    by (simp only: ticker_preprocess)
  then show ?thesis by (simp add: sort_values_date_def)
qed

lemma set_sector_preprocess:
  "sector ` set (preprocess raw) = (\<lambda>r. sector_of (ticker r)) ` set raw"
proof -
  have "sector ` set (preprocess raw) = (\<lambda>r. sector_of (ticker r)) ` set (preprocess raw)"
    by (rule image_cong) (simp_all add: sector_preprocess)
  also have "\<dots> = sector_of ` (ticker ` set (preprocess raw))"
    by (simp add: image_image)
  also have "\<dots> = (\<lambda>r. sector_of (ticker r)) ` set raw"
    by (simp add: set_ticker_preprocess image_image)
  finally show ?thesis .
qed

lemma sector_perf_keys:
  "set (map fst (sector_perf df)) = sector ` set df" "distinct (map fst (sector_perf df))"
proof -
  let ?a = "agg mean (map sector df) (map yearly_return df)"
  have "set (map fst (sector_perf df)) = fst ` set ?a"
    by (simp add: sector_perf_def set_sort_values_desc)
  also have "\<dots> = set (map fst ?a)" by simp
  also have "\<dots> = sector ` set df" by (simp only: keys_agg set_group_keys set_map)
  finally show "set (map fst (sector_perf df)) = sector ` set df" .
  have "distinct (map fst ?a)" by (simp only: keys_agg distinct_group_keys)
  then show "distinct (map fst (sector_perf df))"
    unfolding sector_perf_def by (rule distinct_fst_sort_values_desc)
qed

lemma sector_perf_lookup:
  assumes "s \<in> sector ` set df"
  shows "map_of (sector_perf df) s
         = Some (mean (map yearly_return (filter (\<lambda>r. sector r = s) df)))"
proof -
  let ?a = "agg mean (map sector df) (map yearly_return df)"
  have "distinct (map fst ?a)" by (simp only: keys_agg distinct_group_keys)
  then have "map_of (sector_perf df) s = map_of ?a s"
    by (simp add: sector_perf_def map_of_sort_values_desc)
  also have "\<dots> = Some (mean (group_vals s (map sector df) (map yearly_return df)))"
    using assms by (simp add: map_of_agg)
  finally show ?thesis by (simp add: group_vals_map)
qed

lemma sector_tickers_props:
  "distinct (sector_tickers s df)"
  "set (sector_tickers s df) = ticker ` {r \<in> set df. sector r = s}"
  by (auto simp: sector_tickers_def distinct_group_keys set_group_keys)

lemma sector_records_of_ticker:
  assumes "g \<in> set (sector_tickers s (preprocess raw))"
  shows "filter (\<lambda>r. ticker r = g) (filter (\<lambda>r. sector r = s) (preprocess raw))
         = ticker_series g (preprocess raw)"
proof -
  from assms obtain r0 where r0: "r0 \<in> set (preprocess raw)" "sector r0 = s" "ticker r0 = g"
    by (auto simp: sector_tickers_props)
  then have sg: "sector_of g = s" using sector_preprocess[of r0 raw] by simp
  have "filter (\<lambda>r. ticker r = g) (filter (\<lambda>r. sector r = s) (preprocess raw))
        = filter (\<lambda>r. sector r = s \<and> ticker r = g) (preprocess raw)"
    by simp
  also have "\<dots> = filter (\<lambda>r. ticker r = g) (preprocess raw)"
    using sg by (intro filter_cong refl) (auto simp: sector_preprocess)
  finally show ?thesis by (simp add: ticker_series_def)
qed

lemma yearly_return_finite:
  assumes "r \<in> set (preprocess raw)"
    and "close (hd (ticker_series (ticker r) (preprocess raw))) \<noteq> 0"
  shows "yearly_return r = Fin (first_to_last (ticker r) (preprocess raw))"
proof -
  have "r \<in> set (ticker_series (ticker r) (preprocess raw))"
    using assms(1) by (simp add: ticker_series_def)
  then have "yearly_return r
      = fdiv (fsub (Fin (close (last (ticker_series (ticker r) (preprocess raw)))))
                   (Fin (close (hd (ticker_series (ticker r) (preprocess raw))))))
             (Fin (close (hd (ticker_series (ticker r) (preprocess raw)))))"
    by (rule series_yearly_return)
  also have "\<dots> = Fin (first_to_last (ticker r) (preprocess raw))"
    unfolding first_to_last_def using assms(2) by (rule yearly_step)
  finally show ?thesis .
qed

lemma sector_mean_weighted:
  assumes s: "s \<in> sector ` set (preprocess raw)"
    and nz: "\<forall>g \<in> set (sector_tickers s (preprocess raw)).
               close (hd (ticker_series g (preprocess raw))) \<noteq> 0"
  shows "mean (map yearly_return (filter (\<lambda>r. sector r = s) (preprocess raw)))
         = Fin (record_weighted_sector_mean s (preprocess raw))"
proof -
  let ?df = "preprocess raw"
  let ?rs = "filter (\<lambda>r. sector r = s) ?df"
  let ?gs = "sector_tickers s ?df"
  let ?y = "\<lambda>g. first_to_last g ?df"
  have ne: "?rs \<noteq> []" using s by (auto simp: filter_empty_conv)
  have sub: "ticker ` set ?rs \<subseteq> set ?gs" by (auto simp: sector_tickers_props)
  have dist: "distinct ?gs" by (rule sector_tickers_props)
  have "map yearly_return ?rs = map (\<lambda>r. Fin (?y (ticker r))) ?rs"
  proof (rule map_cong)
    fix r assume r: "r \<in> set ?rs"
    then have "ticker r \<in> set ?gs" using sub by blast
    then have "close (hd (ticker_series (ticker r) ?df)) \<noteq> 0" using nz by blast
    moreover have "r \<in> set ?df" using r by simp
    ultimately show "yearly_return r = Fin (?y (ticker r))" by (simp add: yearly_return_finite)
  qed simp
  also have "\<dots> = map Fin (map (\<lambda>r. ?y (ticker r)) ?rs)" by simp
  finally have "mean (map yearly_return ?rs) = mean (map Fin (map (\<lambda>r. ?y (ticker r)) ?rs))"
    by (rule arg_cong)
  also have "\<dots> = Fin (sum_list (map (\<lambda>r. ?y (ticker r)) ?rs)
                        / real (length (map (\<lambda>r. ?y (ticker r)) ?rs)))"
    by (rule mean_Fin) (use ne in simp)
  finally have m: "mean (map yearly_return ?rs)
                = Fin ((\<Sum>r\<leftarrow>?rs. ?y (ticker r)) / real (length ?rs))"
    by simp
  have cnt: "\<And>g. g \<in> set ?gs \<Longrightarrow>
                  length (filter (\<lambda>r. ticker r = g) ?rs) = record_count g ?df"
    by (simp only: sector_records_of_ticker record_count_def)
  have "(\<Sum>r\<leftarrow>?rs. ?y (ticker r))
        = (\<Sum>g\<leftarrow>?gs. real (length (filter (\<lambda>r. ticker r = g) ?rs)) * ?y g)"
    using dist sub by (rule sum_list_by_key)
  also have "\<dots> = (\<Sum>g\<leftarrow>?gs. real (record_count g ?df) * ?y g)"
    by (rule arg_cong[where f = sum_list], rule map_cong[OF refl]) (simp only: cnt)
  finally have num: "(\<Sum>r\<leftarrow>?rs. ?y (ticker r)) = (\<Sum>g\<leftarrow>?gs. real (record_count g ?df) * ?y g)" .
  have "(\<Sum>r\<leftarrow>?rs. (\<lambda>g. 1 :: real) (ticker r))
        = (\<Sum>g\<leftarrow>?gs. real (length (filter (\<lambda>r. ticker r = g) ?rs)) * (\<lambda>g. 1) g)"
    using dist sub by (rule sum_list_by_key)
  also have "\<dots> = (\<Sum>g\<leftarrow>?gs. real (record_count g ?df))"
    by (rule arg_cong[where f = sum_list], rule map_cong[OF refl]) (simp only: cnt)
  finally have den: "real (length ?rs) = (\<Sum>g\<leftarrow>?gs. real (record_count g ?df))"
    by (simp add: sum_list_triv)
  show ?thesis
    by (simp only: m record_weighted_sector_mean_def num den)
qed

lemma weighted_eq_unweighted:
  assumes "\<forall>g \<in> set (sector_tickers s df). record_count g df = n" and "0 < n"
  shows "record_weighted_sector_mean s df = unweighted_sector_mean s df"
proof -
  let ?gs = "sector_tickers s df"
  have "(\<Sum>g\<leftarrow>?gs. real (record_count g df) * first_to_last g df)
        = (\<Sum>g\<leftarrow>?gs. real n * first_to_last g df)"
    by (rule arg_cong[where f = sum_list], rule map_cong) (simp_all add: assms(1))
  also have "\<dots> = real n * (\<Sum>g\<leftarrow>?gs. first_to_last g df)"
    by (simp add: sum_list_const_mult)
  finally have num: "(\<Sum>g\<leftarrow>?gs. real (record_count g df) * first_to_last g df)
                     = real n * (\<Sum>g\<leftarrow>?gs. first_to_last g df)" .
  have "(\<Sum>g\<leftarrow>?gs. real (record_count g df)) = (\<Sum>g\<leftarrow>?gs. real n)"
    by (rule arg_cong[where f = sum_list], rule map_cong) (simp_all add: assms(1))
  also have "\<dots> = real n * real (length ?gs)"
    by (simp add: sum_list_triv)
  finally have den: "(\<Sum>g\<leftarrow>?gs. real (record_count g df)) = real n * real (length ?gs)" .
  show ?thesis
    unfolding record_weighted_sector_mean_def unweighted_sector_mean_def num den
    using assms(2) by simp
qed

lemma uneven_preprocess:
  "preprocess uneven =
     [\<lparr>ticker = ''cipla'', date = (2024, 1, 1), close = 1, sector = ''Pharma'',
        daily_return = NaN, cumulative_return = Fin 1, month = (2024, 1),
        yearly_return = Fin 1\<rparr>,
      \<lparr>ticker = ''sun_pharma'', date = (2024, 1, 1), close = 1, sector = ''Pharma'',
        daily_return = NaN, cumulative_return = Fin 1, month = (2024, 1),
        yearly_return = Fin 0\<rparr>,
      \<lparr>ticker = ''zzz'', date = (2024, 1, 1), close = 4, sector = ''Unknown'',
        daily_return = NaN, cumulative_return = Fin 1, month = (2024, 1),
        yearly_return = Fin (1 / 4)\<rparr>,
      \<lparr>ticker = ''cipla'', date = (2024, 1, 2), close = 2, sector = ''Pharma'',
        daily_return = Fin 1, cumulative_return = Fin 2, month = (2024, 1),
        yearly_return = Fin 1\<rparr>,
      \<lparr>ticker = ''zzz'', date = (2024, 1, 2), close = 5, sector = ''Unknown'',
        daily_return = Fin (1 / 4), cumulative_return = Fin (5 / 4),
        month = (2024, 1), yearly_return = Fin (1 / 4)\<rparr>]"
  by code_simp

lemma uneven_sector_perf:
  "sector_perf (preprocess uneven) = [(''Pharma'', Fin (2 / 3)), (''Unknown'', Fin (1 / 4))]"
  by code_simp

lemma uneven_pharma_tickers:
  "sector_tickers ''Pharma'' (preprocess uneven) = [''cipla'', ''sun_pharma'']"
  by code_simp

lemma uneven_pharma_means:
  "record_weighted_sector_mean ''Pharma'' (preprocess uneven) = 2 / 3"
  "unweighted_sector_mean ''Pharma'' (preprocess uneven) = 1 / 2"
  by code_simp+

lemma scenario_unknown_tickers:
  "sector_tickers ''Unknown'' (preprocess scenario) = [''a'', ''b'']"
  by code_simp

lemma scenario_unknown_mean:
  "unweighted_sector_mean ''Unknown'' (preprocess scenario) = - (1 / 200)"
  by code_simp

text \<open>
  Claim C2, as the code has it. The sector table has one row per sector that occurs in
  the data, \<open>Unknown\<close> among them when a ticker is not in the sector table. The value
  of a sector is the mean of the \<open>yearly_return\<close> column over all records of the
  sector; when the first closes of its tickers are nonzero this is the mean of the
  per-ticker yearly returns weighted by each ticker's number of records, which is the
  unweighted mean over the tickers when they all have the same number of records.
\<close>

theorem sector_perf_record_weighted:
  "set (map fst (sector_perf (preprocess raw))) = (\<lambda>r. sector_of (ticker r)) ` set raw
   \<and> distinct (map fst (sector_perf (preprocess raw)))
   \<and> (\<forall>s \<in> sector ` set (preprocess raw).
        map_of (sector_perf (preprocess raw)) s
          = Some (mean (map yearly_return (filter (\<lambda>r. sector r = s) (preprocess raw))))
        \<and> ((\<forall>g \<in> set (sector_tickers s (preprocess raw)).
                close (hd (ticker_series g (preprocess raw))) \<noteq> 0) \<longrightarrow>
             map_of (sector_perf (preprocess raw)) s
               = Some (Fin (record_weighted_sector_mean s (preprocess raw)))
             \<and> ((\<exists>n. \<forall>g \<in> set (sector_tickers s (preprocess raw)).
                        record_count g (preprocess raw) = n) \<longrightarrow>
                  record_weighted_sector_mean s (preprocess raw)
                  = unweighted_sector_mean s (preprocess raw))))"
proof -
  let ?df = "preprocess raw"
  have keys: "set (map fst (sector_perf ?df)) = (\<lambda>r. sector_of (ticker r)) ` set raw"
    by (simp only: sector_perf_keys set_sector_preprocess)
  have dist: "distinct (map fst (sector_perf ?df))"
    by (rule sector_perf_keys)
  have each: "map_of (sector_perf ?df) s
                = Some (mean (map yearly_return (filter (\<lambda>r. sector r = s) ?df)))
              \<and> ((\<forall>g \<in> set (sector_tickers s ?df). close (hd (ticker_series g ?df)) \<noteq> 0) \<longrightarrow>
                   map_of (sector_perf ?df) s = Some (Fin (record_weighted_sector_mean s ?df))
                   \<and> ((\<exists>n. \<forall>g \<in> set (sector_tickers s ?df). record_count g ?df = n) \<longrightarrow>
                        record_weighted_sector_mean s ?df = unweighted_sector_mean s ?df))"
    if s: "s \<in> sector ` set ?df" for s
  proof -
    have look: "map_of (sector_perf ?df) s
                = Some (mean (map yearly_return (filter (\<lambda>r. sector r = s) ?df)))"
      using s by (rule sector_perf_lookup)
    have weighted: "map_of (sector_perf ?df) s = Some (Fin (record_weighted_sector_mean s ?df))"
      if "\<forall>g \<in> set (sector_tickers s ?df). close (hd (ticker_series g ?df)) \<noteq> 0"
      using look sector_mean_weighted[OF s that] by simp
    have equal: "record_weighted_sector_mean s ?df = unweighted_sector_mean s ?df"
      if "\<exists>n. \<forall>g \<in> set (sector_tickers s ?df). record_count g ?df = n"
    proof -
      from that obtain n where n: "\<forall>g \<in> set (sector_tickers s ?df). record_count g ?df = n"
        by blast
      from s obtain r where r: "r \<in> set ?df" "sector r = s" by auto
      then have "ticker r \<in> set (sector_tickers s ?df)"
        by (auto simp: sector_tickers_props)
      then have "record_count (ticker r) ?df = n" using n by blast
      moreover have "r \<in> set (ticker_series (ticker r) ?df)"
        using r by (simp add: ticker_series_def)
      ultimately have "0 < n"
        by (auto simp: record_count_def)
      with n show ?thesis by (rule weighted_eq_unweighted)
    qed
    from look weighted equal show ?thesis by blast
  qed
  from keys dist each show ?thesis by blast
qed

theorem sector_perf_record_weighted_witness:
  "(''Pharma'' \<in> sector ` set (preprocess uneven)
    \<and> list_all (\<lambda>g. close (hd (ticker_series g (preprocess uneven))) \<noteq> 0)
          (sector_tickers ''Pharma'' (preprocess uneven))
    \<and> map_of (sector_perf (preprocess uneven)) ''Pharma'' = Some (Fin (2 / 3)))
   \<and> (''Unknown'' \<in> sector ` set (preprocess scenario)
      \<and> list_all (\<lambda>g. close (hd (ticker_series g (preprocess scenario))) \<noteq> 0)
            (sector_tickers ''Unknown'' (preprocess scenario))
      \<and> list_all (\<lambda>g. record_count g (preprocess scenario) = 3)
            (sector_tickers ''Unknown'' (preprocess scenario))
      \<and> map_of (sector_perf (preprocess scenario)) ''Unknown'' = Some (Fin (- (1 / 200))))"
proof -
  have a1: "''Pharma'' \<in> sector ` set (preprocess uneven)"
    by (simp add: uneven_preprocess)
  have a2: "\<forall>g \<in> set (sector_tickers ''Pharma'' (preprocess uneven)).
              close (hd (ticker_series g (preprocess uneven))) \<noteq> 0"
    unfolding uneven_pharma_tickers by (simp add: uneven_preprocess ticker_series_def)
  have a3: "map_of (sector_perf (preprocess uneven)) ''Pharma''
            = Some (Fin (record_weighted_sector_mean ''Pharma'' (preprocess uneven)))"
    using sector_perf_record_weighted[of uneven] a1 a2 by blast
  have b1: "''Unknown'' \<in> sector ` set (preprocess scenario)"
    by (simp add: scenario_preprocess)
  have b2: "\<forall>g \<in> set (sector_tickers ''Unknown'' (preprocess scenario)).
              close (hd (ticker_series g (preprocess scenario))) \<noteq> 0"
    unfolding scenario_unknown_tickers by (simp add: scenario_preprocess ticker_series_def)
  have b3: "\<forall>g \<in> set (sector_tickers ''Unknown'' (preprocess scenario)).
              record_count g (preprocess scenario) = 3"
    unfolding scenario_unknown_tickers
    by (simp add: scenario_preprocess ticker_series_def record_count_def)
  then have b3': "\<exists>n. \<forall>g \<in> set (sector_tickers ''Unknown'' (preprocess scenario)).
              record_count g (preprocess scenario) = n" by blast
  have b4: "map_of (sector_perf (preprocess scenario)) ''Unknown''
            = Some (Fin (unweighted_sector_mean ''Unknown'' (preprocess scenario)))"
    using sector_perf_record_weighted[of scenario] b1 b2 b3' by force
  from a1 a2 a3 b1 b2 b3 b4 show ?thesis
    by (simp only: uneven_pharma_means scenario_unknown_mean list_all_iff simp_thms)
qed

text \<open>
  The claim as written takes the mean over the tickers of the sector, one value per
  ticker. In the table \<open>uneven\<close> the sector Pharma has the tickers \<open>cipla\<close> (two
  records, yearly return 1) and \<open>sun_pharma\<close> (one record, yearly return 0): the mean
  over the tickers is 1/2, the sector table holds 2/3.
\<close>

theorem sector_perf_unweighted_counterexample:
  "sector_tickers ''Pharma'' (preprocess uneven) = [''cipla'', ''sun_pharma'']
   \<and> unweighted_sector_mean ''Pharma'' (preprocess uneven) = 1 / 2
   \<and> map_of (sector_perf (preprocess uneven)) ''Pharma'' = Some (Fin (2 / 3))
   \<and> map_of (sector_perf (preprocess uneven)) ''Pharma''
       \<noteq> Some (Fin (unweighted_sector_mean ''Pharma'' (preprocess uneven)))"
  by (simp add: uneven_sector_perf uneven_pharma_tickers uneven_pharma_means)

section \<open>Descending rankings\<close>

lemma sort_rank_fle:
  "\<not> isna x \<Longrightarrow> \<not> isna y \<Longrightarrow> (sort_rank x \<le> sort_rank y) = fle x y"
  by (cases x; cases y) (simp_all add: less_eq_prod_def)

lemma sorted_wrt_all: "(\<And>a b. b \<in> set ys \<Longrightarrow> P a b) \<Longrightarrow> sorted_wrt P ys"
  by (induction ys) auto

lemma sorted_wrt_sort_values_desc:
  "sorted_wrt (\<lambda>a b. desc_nulls_last (key a) (key b)) (sort_values_desc key xs)"
proof -
  let ?A = "filter (\<lambda>x. \<not> isna (key x)) xs"
  let ?B = "filter (\<lambda>x. isna (key x)) xs"
  let ?S = "sort_key (\<lambda>x. sort_rank (key x)) (rev ?A)"
  let ?P = "\<lambda>a b. desc_nulls_last (key a) (key b)"
  have "sorted (map (\<lambda>x. sort_rank (key x)) ?S)" by (rule sorted_sort_key)
  then have "sorted_wrt (\<lambda>a b. sort_rank (key a) \<le> sort_rank (key b)) ?S"
    by (simp add: sorted_map)
  then have sr: "sorted_wrt (\<lambda>a b. sort_rank (key b) \<le> sort_rank (key a)) (rev ?S)"
    by (simp add: sorted_wrt_rev)
  have mem: "\<And>a. a \<in> set (rev ?S) \<Longrightarrow> \<not> isna (key a)" by simp
  have A: "sorted_wrt ?P (rev ?S)"
  proof (rule sorted_wrt_mono_rel[OF _ sr])
    fix a b
    assume a: "a \<in> set (rev ?S)" and b: "b \<in> set (rev ?S)"
      and le: "sort_rank (key b) \<le> sort_rank (key a)"
    have "fle (key b) (key a)"
      using sort_rank_fle[OF mem[OF b] mem[OF a]] le by simp
    then show "?P a b" using mem[OF a] by (simp add: desc_nulls_last_def)
  qed
  have B: "sorted_wrt ?P ?B"
  proof (rule sorted_wrt_all)
    fix a b
    assume "b \<in> set ?B"
    then show "?P a b" by (simp add: desc_nulls_last_def)
  qed
  have AB: "\<forall>a \<in> set (rev ?S). \<forall>b \<in> set ?B. ?P a b"
    by (simp add: desc_nulls_last_def)
  from A B AB show ?thesis
    by (simp only: sort_values_desc_def sorted_wrt_append simp_thms)
qed


section \<open>Volatility\<close>























section \<open>Monthly returns\<close>

lemma distinct_map_sort_values_desc:
  "distinct (map f xs) \<Longrightarrow> distinct (map f (sort_values_desc key xs))"
  by (simp add: distinct_map distinct_sort_values_desc set_sort_values_desc)

lemma date_preprocess: "map date (preprocess raw) = map date (sort_values_date raw)"
  using arg_cong[OF truncate_preprocess, of "map date" raw] by (simp add: date_truncate o_def)

lemma sorted_month_series: "sorted (map date (month_series m g (preprocess raw)))"
proof -
  have "sorted (map date (preprocess raw))"
    by (simp add: date_preprocess sort_values_date_def)
  then show ?thesis
    unfolding month_series_def ticker_series_def by (intro sorted_filter)
qed

lemma tickers_of_month:
  "ticker ` {r \<in> set (preprocess raw). month r = m}
   = ticker ` {r \<in> set raw. month_of (date r) = m}"
proof -
  have s: "row.truncate ` set (preprocess raw) = set raw"
    using arg_cong[OF truncate_preprocess, of set raw] by (simp add: sort_values_date_def)
  have "ticker ` {r \<in> set (preprocess raw). month r = m}
        = ticker ` {r \<in> set (preprocess raw). month_of (date r) = m}"
    by (rule arg_cong[where f = "image ticker"]) (auto simp: month_preprocess)
  also have "\<dots> = ticker ` {r \<in> row.truncate ` set (preprocess raw). month_of (date r) = m}"
    by (force simp: ticker_truncate date_truncate image_iff)
  finally show ?thesis by (simp only: s)
qed

lemma group_closes_month:
  "group_vals g (map ticker (filter (\<lambda>r. month r = m) df)) (closes (filter (\<lambda>r. month r = m) df))
   = closes (month_series m g df)"
proof -
  have "filter (\<lambda>r. ticker r = g) (filter (\<lambda>r. month r = m) df) = month_series m g df"
    by (simp add: month_series_def ticker_series_def conj_commute)
  then show ?thesis
    by (simp add: closes_def group_vals_map)
qed

lemma monthly_return_rows:
  "monthly_return m df =
     sort_values_desc m_return
       (map (\<lambda>g. \<lparr>m_ticker = g,
                  m_first = first_valid (closes (month_series m g df)),
                  m_last = last_valid (closes (month_series m g df)),
                  m_return = fdiv (fsub (last_valid (closes (month_series m g df)))
                                        (first_valid (closes (month_series m g df))))
                                  (first_valid (closes (month_series m g df)))\<rparr>)
          (group_keys (map ticker (filter (\<lambda>r. month r = m) df))))"
  by (simp only: monthly_return_def Let_def group_closes_month)

lemma monthly_return_tickers:
  "set (map m_ticker (monthly_return m df)) = ticker ` {r \<in> set df. month r = m}"
  "distinct (map m_ticker (monthly_return m df))"
proof -
  let ?ks = "group_keys (map ticker (filter (\<lambda>r. month r = m) df))"
  let ?T = "map (\<lambda>g. \<lparr>m_ticker = g,
                  m_first = first_valid (closes (month_series m g df)),
                  m_last = last_valid (closes (month_series m g df)),
                  m_return = fdiv (fsub (last_valid (closes (month_series m g df)))
                                        (first_valid (closes (month_series m g df))))
                                  (first_valid (closes (month_series m g df)))\<rparr>) ?ks"
  have k: "map m_ticker ?T = ?ks" by (simp add: o_def)
  have "set (map m_ticker (monthly_return m df)) = m_ticker ` set ?T"
    by (simp only: monthly_return_rows set_map set_sort_values_desc)
  also have "\<dots> = set (map m_ticker ?T)" by (simp only: set_map)
  also have "\<dots> = ticker ` {r \<in> set df. month r = m}"
    unfolding k by (auto simp: set_group_keys)
  finally show "set (map m_ticker (monthly_return m df)) = ticker ` {r \<in> set df. month r = m}" .
  have "distinct (map m_ticker ?T)" unfolding k by (rule distinct_group_keys)
  then show "distinct (map m_ticker (monthly_return m df))"
    unfolding monthly_return_rows by (rule distinct_map_sort_values_desc)
qed

lemma monthly_return_row:
  assumes "row \<in> set (monthly_return m df)"
  shows "month_series m (m_ticker row) df \<noteq> []"
    and "m_first row = Fin (close (hd (month_series m (m_ticker row) df)))"
    and "m_last row = Fin (close (last (month_series m (m_ticker row) df)))"
    and "m_return row = fdiv (fsub (m_last row) (m_first row)) (m_first row)"
proof -
  let ?ks = "group_keys (map ticker (filter (\<lambda>r. month r = m) df))"
  from assms obtain g where g: "g \<in> set ?ks"
    and row: "row = \<lparr>m_ticker = g,
                  m_first = first_valid (closes (month_series m g df)),
                  m_last = last_valid (closes (month_series m g df)),
                  m_return = fdiv (fsub (last_valid (closes (month_series m g df)))
                                        (first_valid (closes (month_series m g df))))
                                  (first_valid (closes (month_series m g df)))\<rparr>"
    unfolding monthly_return_rows set_sort_values_desc by auto
  have t: "m_ticker row = g" using row by simp
  from g obtain r where "r \<in> set df" "month r = m" "ticker r = g"
    by (auto simp: set_group_keys)
  then have "r \<in> set (month_series m g df)"
    by (simp add: month_series_def ticker_series_def)
  then have ne: "month_series m g df \<noteq> []" by auto
  show "month_series m (m_ticker row) df \<noteq> []" using ne t by simp
  show f: "m_first row = Fin (close (hd (month_series m (m_ticker row) df)))"
    unfolding t using row first_valid_closes[OF ne] by simp
  show l: "m_last row = Fin (close (last (month_series m (m_ticker row) df)))"
    unfolding t using row last_valid_closes[OF ne] by simp
  show "m_return row = fdiv (fsub (m_last row) (m_first row)) (m_first row)"
    using row by simp
qed

lemma monthly_return_cong:
  assumes "map (\<lambda>r. (ticker r, month r, close r)) df' = map (\<lambda>r. (ticker r, month r, close r)) df"
  shows "monthly_return m df' = monthly_return m df"
proof -
  let ?p = "\<lambda>r. (ticker r, month r, close r)"
  have f: "map ?p (filter (\<lambda>r. month r = m) d) = filter (\<lambda>t. fst (snd t) = m) (map ?p d)"
    for d :: "erow list"
    by (simp add: filter_map o_def)
  have e: "map ?p (filter (\<lambda>r. month r = m) df') = map ?p (filter (\<lambda>r. month r = m) df)"
    by (simp only: f assms)
  have t: "map ticker (filter (\<lambda>r. month r = m) df') = map ticker (filter (\<lambda>r. month r = m) df)"
    using arg_cong[OF e, of "map fst"] by (simp add: o_def)
  have c: "closes (filter (\<lambda>r. month r = m) df') = closes (filter (\<lambda>r. month r = m) df)"
    using arg_cong[OF e, of "map (\<lambda>t. Fin (snd (snd t)))"] by (simp add: o_def closes_def)
  show ?thesis
    by (simp only: monthly_return_def Let_def t c)
qed

lemma monthly_return_only_month:
  "monthly_return m (filter (\<lambda>r. month r = m) df) = monthly_return m df"
  by (simp add: monthly_return_def)

lemma two_months_january:
  "monthly_return (2024, 1) (preprocess two_months) =
     [\<lparr>m_ticker = ''b'', m_first = Fin 5, m_last = Fin 6, m_return = Fin (1 / 5)\<rparr>,
      \<lparr>m_ticker = ''a'', m_first = Fin 10, m_last = Fin 11, m_return = Fin (1 / 10)\<rparr>]"
  by code_simp

lemma two_months_february:
  "monthly_return (2024, 2) (preprocess two_months) =
     [\<lparr>m_ticker = ''a'', m_first = Fin 12, m_last = Fin 9, m_return = Fin (- (1 / 4))\<rparr>]"
  by code_simp

lemma two_months_february_series:
  "map close (month_series (2024, 2) ''a'' (preprocess two_months)) = [12, 9]"
  by code_simp

text \<open>
  Claim C7. For a month \<open>m\<close> the monthly summary has exactly one row for each ticker
  that has a record in \<open>m\<close>, so a ticker without a record in \<open>m\<close> has no row. The
  row of a ticker holds the closes of the ticker's first and last record of the month, in
  date order, and \<open>(last - first) / first\<close> of these two closes. The summary is
  determined by the ticker, month and close columns of the records of month \<open>m\<close>:
  neither the yearly nor the cumulative return, nor any record of another month, enters.
\<close>

theorem monthly_summary_per_ticker:
  "set (map m_ticker (monthly_return m (preprocess raw)))
     = ticker ` {r \<in> set raw. month_of (date r) = m}
   \<and> distinct (map m_ticker (monthly_return m (preprocess raw)))
   \<and> (\<forall>row \<in> set (monthly_return m (preprocess raw)).
        month_series m (m_ticker row) (preprocess raw) \<noteq> []
        \<and> sorted (map date (month_series m (m_ticker row) (preprocess raw)))
        \<and> m_first row = Fin (close (hd (month_series m (m_ticker row) (preprocess raw))))
        \<and> m_last row = Fin (close (last (month_series m (m_ticker row) (preprocess raw))))
        \<and> m_return row = fdiv (fsub (m_last row) (m_first row)) (m_first row)
        \<and> (close (hd (month_series m (m_ticker row) (preprocess raw))) \<noteq> 0 \<longrightarrow>
             m_return row
             = Fin ((close (last (month_series m (m_ticker row) (preprocess raw)))
                      - close (hd (month_series m (m_ticker row) (preprocess raw))))
                    / close (hd (month_series m (m_ticker row) (preprocess raw))))))
   \<and> (\<forall>df'. map (\<lambda>r. (ticker r, month r, close r)) df'
              = map (\<lambda>r. (ticker r, month r, close r)) (preprocess raw) \<longrightarrow>
            monthly_return m df' = monthly_return m (preprocess raw))
   \<and> monthly_return m (filter (\<lambda>r. month r = m) (preprocess raw))
       = monthly_return m (preprocess raw)"
proof -
  let ?df = "preprocess raw"
  have keys: "set (map m_ticker (monthly_return m ?df))
              = ticker ` {r \<in> set raw. month_of (date r) = m}"
    by (simp only: monthly_return_tickers tickers_of_month)
  have dist: "distinct (map m_ticker (monthly_return m ?df))"
    by (rule monthly_return_tickers)
  have each: "month_series m (m_ticker row) ?df \<noteq> []
        \<and> sorted (map date (month_series m (m_ticker row) ?df))
        \<and> m_first row = Fin (close (hd (month_series m (m_ticker row) ?df)))
        \<and> m_last row = Fin (close (last (month_series m (m_ticker row) ?df)))
        \<and> m_return row = fdiv (fsub (m_last row) (m_first row)) (m_first row)
        \<and> (close (hd (month_series m (m_ticker row) ?df)) \<noteq> 0 \<longrightarrow>
             m_return row
             = Fin ((close (last (month_series m (m_ticker row) ?df))
                      - close (hd (month_series m (m_ticker row) ?df)))
                    / close (hd (month_series m (m_ticker row) ?df))))"
    if mem: "row \<in> set (monthly_return m ?df)" for row
  proof -
    let ?s = "month_series m (m_ticker row) ?df"
    note r = monthly_return_row[OF mem]
    have fin: "m_return row = Fin ((close (last ?s) - close (hd ?s)) / close (hd ?s))"
      if nz: "close (hd ?s) \<noteq> 0"
    proof -
      have "m_return row = fdiv (fsub (Fin (close (last ?s))) (Fin (close (hd ?s))))
                                (Fin (close (hd ?s)))"
        using r(4) by (simp only: r(2) r(3))
      also have "\<dots> = Fin ((close (last ?s) - close (hd ?s)) / close (hd ?s))"
        using nz by (rule yearly_step)
      finally show ?thesis .
    qed
    from r sorted_month_series[of m "m_ticker row" raw] fin show ?thesis by blast
  qed
  have indep: "\<forall>df'. map (\<lambda>r. (ticker r, month r, close r)) df'
              = map (\<lambda>r. (ticker r, month r, close r)) ?df \<longrightarrow>
            monthly_return m df' = monthly_return m ?df"
    by (intro allI impI) (rule monthly_return_cong)
  from keys dist each indep monthly_return_only_month[of m ?df] show ?thesis by blast
qed

theorem monthly_summary_per_ticker_witness:
  "\<lparr>m_ticker = ''a'', m_first = Fin 12, m_last = Fin 9, m_return = Fin (- (1 / 4))\<rparr>
     \<in> set (monthly_return (2024, 2) (preprocess two_months))
   \<and> close (hd (month_series (2024, 2) ''a'' (preprocess two_months))) \<noteq> 0
   \<and> Fin (- (1 / 4))
       = Fin ((close (last (month_series (2024, 2) ''a'' (preprocess two_months)))
                - close (hd (month_series (2024, 2) ''a'' (preprocess two_months))))
              / close (hd (month_series (2024, 2) ''a'' (preprocess two_months))))
   \<and> ''b'' \<in> ticker ` set two_months
   \<and> ''b'' \<notin> set (map m_ticker (monthly_return (2024, 2) (preprocess two_months)))"
proof -
  let ?row = "\<lparr>m_ticker = ''a'', m_first = Fin 12, m_last = Fin 9, m_return = Fin (- (1 / 4))\<rparr>"
  let ?s = "month_series (2024, 2) ''a'' (preprocess two_months)"
  have mem: "?row \<in> set (monthly_return (2024, 2) (preprocess two_months))"
    by (simp add: two_months_february)
  have "?s \<noteq> []" using two_months_february_series by auto
  then have "close (hd ?s) = hd (map close ?s)" by (simp add: hd_map)
  then have hd: "close (hd ?s) = 12" by (simp add: two_months_february_series)
  note t = monthly_summary_per_ticker[of "(2024, 2)" two_months]
  have ret: "m_return ?row = Fin ((close (last ?s) - close (hd ?s)) / close (hd ?s))"
    using t[THEN conjunct2, THEN conjunct2, THEN conjunct1, THEN bspec, OF mem] hd by simp
  have b: "''b'' \<in> ticker ` set two_months" by (simp add: two_months_def)
  have "''b'' \<notin> ticker ` {r \<in> set two_months. month_of (date r) = (2024, 2)}"
    by (auto simp: two_months_def month_of_def)
  then have nb: "''b'' \<notin> set (map m_ticker (monthly_return (2024, 2) (preprocess two_months)))"
    unfolding t[THEN conjunct1] .
  from mem hd ret b nb show ?thesis by simp
qed

text \<open>
  Claim C10. The exported monthly file has the columns ticker, first, last and
  monthly_return, and its lines are the monthly summary in its sorted order: descending
  by monthly return, the null returns last. Of two lines, when the later one has a
  non-null return, the earlier one has a non-null return that is at least as large.
\<close>

theorem csv_month_descending:
  "fst (csv_month m df) = [''ticker'', ''first'', ''last'', ''monthly_return'']
   \<and> snd (csv_month m df) = monthly_return m df
   \<and> sorted_wrt (\<lambda>a b. desc_nulls_last (m_return a) (m_return b)) (snd (csv_month m df))
   \<and> (\<forall>i j. i < j \<and> j < length (snd (csv_month m df))
              \<and> \<not> isna (m_return (snd (csv_month m df) ! j)) \<longrightarrow>
            \<not> isna (m_return (snd (csv_month m df) ! i))
            \<and> fle (m_return (snd (csv_month m df) ! j)) (m_return (snd (csv_month m df) ! i)))"
proof -
  let ?rows = "snd (csv_month m df)"
  have rows: "?rows = monthly_return m df" by (simp add: csv_month_def)
  have srt: "sorted_wrt (\<lambda>a b. desc_nulls_last (m_return a) (m_return b)) ?rows"
    unfolding rows monthly_return_rows by (rule sorted_wrt_sort_values_desc)
  have pair: "\<not> isna (m_return (?rows ! i)) \<and> fle (m_return (?rows ! j)) (m_return (?rows ! i))"
    if "i < j" "j < length ?rows" "\<not> isna (m_return (?rows ! j))" for i j
  proof -
    have "desc_nulls_last (m_return (?rows ! i)) (m_return (?rows ! j))"
      using srt that(1,2) by (simp only: sorted_wrt_iff_nth_less)
    with that(3) show ?thesis by (simp add: desc_nulls_last_def)
  qed
  have "fst (csv_month m df) = [''ticker'', ''first'', ''last'', ''monthly_return'']"
    by (simp add: csv_month_def)
  with rows srt pair show ?thesis by blast
qed

theorem csv_month_descending_witness:
  "map m_return (snd (csv_month (2024, 1) (preprocess two_months))) = [Fin (1 / 5), Fin (1 / 10)]
   \<and> (0::nat) < 1 \<and> 1 < length (snd (csv_month (2024, 1) (preprocess two_months)))
   \<and> \<not> isna (m_return (snd (csv_month (2024, 1) (preprocess two_months)) ! 1))
   \<and> \<not> isna (m_return (snd (csv_month (2024, 1) (preprocess two_months)) ! 0))
   \<and> fle (m_return (snd (csv_month (2024, 1) (preprocess two_months)) ! 1))
          (m_return (snd (csv_month (2024, 1) (preprocess two_months)) ! 0))"
proof -
  let ?rows = "snd (csv_month (2024, 1) (preprocess two_months))"
  have rows: "?rows = monthly_return (2024, 1) (preprocess two_months)"
    by (simp add: csv_month_def)
  have a: "map m_return ?rows = [Fin (1 / 5), Fin (1 / 10)]"
    unfolding rows two_months_january by simp
  have b: "(0::nat) < 1 \<and> 1 < length ?rows \<and> \<not> isna (m_return (?rows ! 1))"
    unfolding rows two_months_january by simp
  have c: "\<not> isna (m_return (?rows ! 0)) \<and> fle (m_return (?rows ! 1)) (m_return (?rows ! 0))"
    using csv_month_descending[of "(2024, 1)" "preprocess two_months", THEN conjunct2,
        THEN conjunct2, THEN conjunct2, THEN spec, THEN spec, THEN mp, OF b] .
  from a b c show ?thesis by simp
qed

section \<open>Correlation\<close>

lemma sum_list_quadratic:
  "(\<Sum>p\<leftarrow>ps. (fst p * t - snd p) * (fst p * t - snd p))
   = (\<Sum>p\<leftarrow>ps. fst p * fst p) * t * t - 2 * (\<Sum>p\<leftarrow>ps. fst p * snd p) * t
     + (\<Sum>p\<leftarrow>ps. snd p * snd p :: real)"
  by (induction ps) (simp_all add: algebra_simps)

lemma sum_list_squares_zero:
  assumes "(\<Sum>p\<leftarrow>ps. fst p * fst p) = (0::real)"
  shows "(\<Sum>p\<leftarrow>ps. fst p * snd p) = (0::real)"
proof -
  have nn: "\<forall>x \<in> set (map (\<lambda>p. fst p * fst p) ps). (0::real) \<le> x" by auto
  have "\<forall>x \<in> set (map (\<lambda>p. fst p * fst p) ps). x = 0"
    using assms sum_list_nonneg_eq_0_iff[of "map (\<lambda>p. fst p * fst p) ps"] nn by blast
  then have "\<forall>p \<in> set ps. fst p = 0" by auto
  then show ?thesis by (induction ps) auto
qed

lemma cauchy_schwarz_list:
  fixes ps :: "(real \<times> real) list"
  shows "(\<Sum>p\<leftarrow>ps. fst p * snd p) * (\<Sum>p\<leftarrow>ps. fst p * snd p)
         \<le> (\<Sum>p\<leftarrow>ps. fst p * fst p) * (\<Sum>p\<leftarrow>ps. snd p * snd p)"
proof -
  let ?A = "\<Sum>p\<leftarrow>ps. fst p * fst p"
  let ?B = "\<Sum>p\<leftarrow>ps. snd p * snd p"
  let ?C = "\<Sum>p\<leftarrow>ps. fst p * snd p"
  have A0: "0 \<le> ?A" by (rule sum_list_nonneg) auto
  show ?thesis
  proof (cases "?A = 0")
    case True
    then have "?C = 0" by (rule sum_list_squares_zero)
    with True show ?thesis by simp
  next
    case False
    then have Apos: "0 < ?A" using A0 by simp
    let ?t = "?C / ?A"
    have "0 \<le> (\<Sum>p\<leftarrow>ps. (fst p * ?t - snd p) * (fst p * ?t - snd p))"
      by (rule sum_list_nonneg) auto
    also have "\<dots> = ?A * ?t * ?t - 2 * ?C * ?t + ?B"
      by (rule sum_list_quadratic)
    also have "\<dots> = ?B - ?C * ?C / ?A"
      using False by (simp add: field_simps)
    finally have "?C * ?C / ?A \<le> ?B" by simp
    then have "?C * ?C \<le> ?B * ?A"
      using Apos by (simp add: pos_divide_le_eq)
    then show ?thesis by (simp add: mult.commute)
  qed
qed

lemma pearson_unfold:
  "pearson obs =
     (if length obs < 1 then NaN
      else if sqrt ((\<Sum>p\<leftarrow>obs. (fst p - sum_list (map fst obs) / real (length obs))
                               * (fst p - sum_list (map fst obs) / real (length obs)))
                    * (\<Sum>p\<leftarrow>obs. (snd p - sum_list (map snd obs) / real (length obs))
                                 * (snd p - sum_list (map snd obs) / real (length obs)))) \<noteq> 0
      then Fin ((\<Sum>p\<leftarrow>obs. (fst p - sum_list (map fst obs) / real (length obs))
                           * (snd p - sum_list (map snd obs) / real (length obs)))
                / sqrt ((\<Sum>p\<leftarrow>obs. (fst p - sum_list (map fst obs) / real (length obs))
                                   * (fst p - sum_list (map fst obs) / real (length obs)))
                        * (\<Sum>p\<leftarrow>obs. (snd p - sum_list (map snd obs) / real (length obs))
                                     * (snd p - sum_list (map snd obs) / real (length obs)))))
      else NaN)"
  by (simp add: pearson_def Let_def)

lemma pearson_swap: "pearson (map prod.swap obs) = pearson obs"
  unfolding pearson_unfold
  by (simp add: o_def mult.commute)

lemma pearson_range:
  "pearson obs = NaN \<or> (\<exists>c. pearson obs = Fin c \<and> - 1 \<le> c \<and> c \<le> 1)"
proof -
  let ?mx = "sum_list (map fst obs) / real (length obs)"
  let ?my = "sum_list (map snd obs) / real (length obs)"
  let ?ds = "map (\<lambda>p. (fst p - ?mx, snd p - ?my)) obs"
  let ?A = "\<Sum>p\<leftarrow>obs. (fst p - ?mx) * (fst p - ?mx)"
  let ?B = "\<Sum>p\<leftarrow>obs. (snd p - ?my) * (snd p - ?my)"
  let ?C = "\<Sum>p\<leftarrow>obs. (fst p - ?mx) * (snd p - ?my)"
  have cs: "?C * ?C \<le> ?A * ?B"
    using cauchy_schwarz_list[of ?ds] by (simp add: o_def)
  show ?thesis
  proof (cases "length obs < 1 \<or> sqrt (?A * ?B) = 0")
    case True
    then have "pearson obs = NaN" unfolding pearson_unfold by auto
    then show ?thesis by simp
  next
    case False
    then have p: "pearson obs = Fin (?C / sqrt (?A * ?B))"
      unfolding pearson_unfold by auto
    have "0 \<le> ?A * ?B" using cs mult_nonneg_nonneg[of ?C ?C] zero_le_square[of ?C]
      by linarith
    then have d: "0 < sqrt (?A * ?B)" using False by (simp add: less_le)
    have "\<bar>?C\<bar> = sqrt (?C * ?C)" by simp
    also have "\<dots> \<le> sqrt (?A * ?B)" using cs by (rule real_sqrt_le_mono)
    finally have "\<bar>?C\<bar> \<le> sqrt (?A * ?B)" .
    then have "\<bar>?C / sqrt (?A * ?B)\<bar> \<le> 1"
      using d by simp
    then have "- 1 \<le> ?C / sqrt (?A * ?B) \<and> ?C / sqrt (?A * ?B) \<le> 1"
      unfolding abs_le_iff by linarith
    with p show ?thesis by blast
  qed
qed

lemma pearson_self:
  "pearson (map (\<lambda>x. (x, x)) xs) = (if sum_sq_dev xs \<noteq> 0 then Fin 1 else NaN)"
proof -
  let ?S = "sum_sq_dev xs"
  have S0: "0 \<le> ?S" unfolding sum_sq_dev_def by (rule sum_list_nonneg) auto
  have u: "pearson (map (\<lambda>x. (x, x)) xs)
           = (if length xs < 1 then NaN
              else if sqrt (?S * ?S) \<noteq> 0 then Fin (?S / sqrt (?S * ?S)) else NaN)"
    unfolding pearson_unfold sum_sq_dev_def by (simp add: o_def)
  have e: "sum_sq_dev [] = 0" by (simp add: sum_sq_dev_def)
  show ?thesis
  proof (cases "xs = []")
    case True
    then show ?thesis unfolding u by (simp add: e)
  next
    case False
    then have "\<not> length xs < 1" by (cases xs) simp_all
    then show ?thesis unfolding u using S0 by simp
  qed
qed

lemma length_corr: "length (corr df) = length (ticker_columns df)"
  by (simp add: corr_def Let_def ticker_columns_def)

lemma corr_nth:
  assumes "i < length (ticker_columns df)" and "j < length (ticker_columns df)"
  shows "length (corr df ! i) = length (ticker_columns df)"
    and "corr df ! i ! j = pearson (pair_obs i j (returns df))"
  using assms by (simp_all add: corr_def Let_def ticker_columns_def)

lemma pair_obs_swap: "pair_obs j i g = map prod.swap (pair_obs i j g)"
  by (simp add: pair_obs_def conj_commute)

lemma pair_obs_self: "pair_obs i i g = map (\<lambda>x. (x, x)) (finite_column i g)"
  by (simp add: pair_obs_def finite_column_def)

lemma length_ffill_from:
  "length prev = k \<Longrightarrow> \<forall>r \<in> set rs. length r = k \<Longrightarrow> \<forall>r \<in> set (ffill_from prev rs). length r = k"
proof (induction rs arbitrary: prev)
  case Nil
  then show ?case by simp
next
  case (Cons r rs)
  let ?r' = "map2 (\<lambda>p x. if isna x then p else x) prev r"
  have l: "length ?r' = k" using Cons.prems by simp
  have "\<forall>x \<in> set (ffill_from ?r' rs). length x = k"
    using Cons.IH[OF l] Cons.prems(2) by simp
  with l show ?case by (simp add: Let_def)
qed

lemma length_ffill: "\<forall>r \<in> set g. length r = k \<Longrightarrow> \<forall>r \<in> set (ffill g). length r = k"
proof (cases g)
  case Nil
  then show ?thesis by (simp add: ffill_def)
next
  case (Cons r rs)
  assume a: "\<forall>r \<in> set g. length r = k"
  then have "length r = k" "\<forall>x \<in> set rs. length x = k" using Cons by simp_all
  then have "\<forall>x \<in> set (ffill_from r rs). length x = k" by (rule length_ffill_from)
  with \<open>length r = k\<close> Cons show ?thesis by (simp add: ffill_def)
qed

lemma length_pct_change_from:
  "length prev = k \<Longrightarrow> \<forall>r \<in> set rs. length r = k \<Longrightarrow>
   \<forall>r \<in> set (pct_change_from prev rs). length r = k"
proof (induction rs arbitrary: prev)
  case Nil
  then show ?case by simp
next
  case (Cons r rs)
  have l: "length r = k" using Cons.prems by simp
  have "\<forall>x \<in> set (pct_change_from r rs). length x = k"
    using Cons.IH[OF l] Cons.prems(2) by simp
  with l Cons.prems(1) show ?case by simp
qed

lemma length_pct_change_rows:
  "\<forall>r \<in> set g. length r = k \<Longrightarrow> \<forall>r \<in> set (pct_change_rows g). length r = k"
proof (cases g)
  case Nil
  then show ?thesis by (simp add: pct_change_rows_def)
next
  case (Cons r rs)
  assume a: "\<forall>r \<in> set g. length r = k"
  then have "length r = k" "\<forall>x \<in> set rs. length x = k" using Cons by simp_all
  then have "\<forall>x \<in> set (pct_change_from r rs). length x = k" by (rule length_pct_change_from)
  with \<open>length r = k\<close> Cons show ?thesis by (simp add: pct_change_rows_def)
qed

lemma length_returns_row: "\<forall>r \<in> set (returns df). length r = length (ticker_columns df)"
proof -
  have "\<forall>r \<in> set (pivot df). length r = length (ticker_columns df)"
    by (simp add: pivot_def ticker_columns_def)
  then have "\<forall>r \<in> set (pct_change_rows (ffill (pivot df))). length r = length (ticker_columns df)"
    by (intro length_pct_change_rows length_ffill)
  then show ?thesis by (simp add: returns_def dropna_def)
qed

lemma scenario_columns: "ticker_columns (preprocess scenario) = [''a'', ''b'']"
  by code_simp

lemma scenario_returns:
  "returns (preprocess scenario) = [[Fin (1 / 10), Fin 0], [Fin (- (1 / 10)), Fin 0]]"
  by code_simp

lemma two_months_columns: "ticker_columns (preprocess two_months) = [''a'', ''b'']"
  by code_simp

lemma two_months_returns:
  "returns (preprocess two_months)
   = [[Fin (1 / 10), Fin 0], [Fin 0, Fin (1 / 5)], [Fin (1 / 11), Fin 0], [Fin (- (1 / 4)), Fin 0]]"
  by code_simp

lemma corr_symmetric:
  assumes "i < length (ticker_columns df)" and "j < length (ticker_columns df)"
  shows "corr df ! i ! j = corr df ! j ! i"
proof -
  have "corr df ! j ! i = pearson (pair_obs j i (returns df))"
    using assms by (simp add: corr_nth)
  also have "\<dots> = pearson (pair_obs i j (returns df))"
    by (simp only: pair_obs_swap[of j i] pearson_swap)
  finally show ?thesis using assms by (simp add: corr_nth)
qed

lemma corr_diagonal:
  assumes "i < length (ticker_columns df)"
  shows "corr df ! i ! i
         = (if sum_sq_dev (finite_column i (returns df)) \<noteq> 0 then Fin 1 else NaN)"
proof -
  have "corr df ! i ! i = pearson (pair_obs i i (returns df))"
    using assms by (simp add: corr_nth)
  then show ?thesis by (simp only: pair_obs_self pearson_self)
qed

lemma corr_range:
  assumes "i < length (ticker_columns df)" and "j < length (ticker_columns df)"
  shows "corr df ! i ! j = NaN \<or> (\<exists>c. corr df ! i ! j = Fin c \<and> - 1 \<le> c \<and> c \<le> 1)"
proof -
  have "corr df ! i ! j = pearson (pair_obs i j (returns df))"
    using assms by (simp add: corr_nth)
  then show ?thesis using pearson_range[of "pair_obs i j (returns df)"] by simp
qed

text \<open>
  Claim C8, as the code has it. The correlation matrix has one line and one column per
  ticker. It is symmetric; every entry is null or a number between -1 and 1; the
  diagonal entry of a ticker is 1 when the ticker's column of returns is not constant
  (the squared deviations of its finite values from their mean do not sum to 0), and
  null otherwise.
\<close>

theorem corr_symmetric_bounded:
  "length (corr df) = length (ticker_columns df)
   \<and> (\<forall>r \<in> set (returns df). length r = length (ticker_columns df))
   \<and> (\<forall>i j. i < length (ticker_columns df) \<and> j < length (ticker_columns df) \<longrightarrow>
         length (corr df ! i) = length (ticker_columns df)
         \<and> corr df ! i ! j = pearson (pair_obs i j (returns df))
         \<and> corr df ! i ! j = corr df ! j ! i
         \<and> corr df ! i ! i
             = (if sum_sq_dev (finite_column i (returns df)) \<noteq> 0 then Fin 1 else NaN)
         \<and> (corr df ! i ! j = NaN
              \<or> (\<exists>c. corr df ! i ! j = Fin c \<and> - 1 \<le> c \<and> c \<le> 1)))"
proof -
  have each: "length (corr df ! i) = length (ticker_columns df)
         \<and> corr df ! i ! j = pearson (pair_obs i j (returns df))
         \<and> corr df ! i ! j = corr df ! j ! i
         \<and> corr df ! i ! i
             = (if sum_sq_dev (finite_column i (returns df)) \<noteq> 0 then Fin 1 else NaN)
         \<and> (corr df ! i ! j = NaN
              \<or> (\<exists>c. corr df ! i ! j = Fin c \<and> - 1 \<le> c \<and> c \<le> 1))"
    if "i < length (ticker_columns df)" "j < length (ticker_columns df)" for i j
    using corr_nth[OF that] corr_symmetric[OF that] corr_diagonal[OF that(1)] corr_range[OF that]
    by blast
  from length_corr[of df] length_returns_row[of df] each show ?thesis by blast
qed

theorem corr_symmetric_bounded_witness:
  "(0::nat) < length (ticker_columns (preprocess two_months))
   \<and> 1 < length (ticker_columns (preprocess two_months))
   \<and> sum_sq_dev (finite_column 0 (returns (preprocess two_months))) \<noteq> 0
   \<and> corr (preprocess two_months) ! 0 ! 0 = Fin 1
   \<and> corr (preprocess two_months) ! 0 ! 1 = corr (preprocess two_months) ! 1 ! 0
   \<and> (corr (preprocess two_months) ! 0 ! 1 = NaN
        \<or> (\<exists>c. corr (preprocess two_months) ! 0 ! 1 = Fin c \<and> - 1 \<le> c \<and> c \<le> 1))"
proof -
  have k: "(0::nat) < length (ticker_columns (preprocess two_months))
           \<and> 1 < length (ticker_columns (preprocess two_months))"
    by (simp add: two_months_columns)
  have s: "sum_sq_dev (finite_column 0 (returns (preprocess two_months))) \<noteq> 0"
    unfolding two_months_returns by (simp add: finite_column_def sum_sq_dev_def)
  note t = corr_symmetric_bounded[of "preprocess two_months", THEN conjunct2, THEN conjunct2,
      THEN spec, THEN spec, THEN mp, OF k]
  from t s have d: "corr (preprocess two_months) ! 0 ! 0 = Fin 1" by simp
  from t have sym: "corr (preprocess two_months) ! 0 ! 1 = corr (preprocess two_months) ! 1 ! 0"
    by blast
  from t have rng: "corr (preprocess two_months) ! 0 ! 1 = NaN
        \<or> (\<exists>c. corr (preprocess two_months) ! 0 ! 1 = Fin c \<and> - 1 \<le> c \<and> c \<le> 1)"
    by blast
  from k s d sym rng show ?thesis by blast
qed

text \<open>
  The claim as written has 1 everywhere on the diagonal. In the scenario of the
  specification ticker \<open>b\<close> closes at 5 on every day, its returns are all 0, and its
  diagonal entry is null.
\<close>

theorem corr_diagonal_counterexample:
  "ticker_columns (preprocess scenario) = [''a'', ''b'']
   \<and> finite_column 1 (returns (preprocess scenario)) = [0, 0]
   \<and> corr (preprocess scenario) ! 1 ! 1 = NaN
   \<and> corr (preprocess scenario) ! 1 ! 1 \<noteq> Fin 1"
proof -
  have k: "1 < length (ticker_columns (preprocess scenario))"
    by (simp add: scenario_columns)
  have c: "finite_column 1 (returns (preprocess scenario)) = [0, 0]"
    unfolding scenario_returns by (simp add: finite_column_def)
  have "corr (preprocess scenario) ! 1 ! 1 = NaN"
    unfolding corr_diagonal[OF k] c by (simp add: sum_sq_dev_def)
  with c show ?thesis by (simp add: scenario_columns)
qed

end
